theory Spec2Isabelle
  imports Main
begin

section \<open>Strings and character classes\<close>

text \<open>
  A Python \<open>str\<close> is modelled as a \<open>string\<close> (a list of \<open>char\<close>), each \<open>char\<close> read as the
  code point of the same number (0 to 255). Code points above 255 are outside the model.
  The character classes below are the ones Python's \<open>re\<close> and \<open>str\<close> methods use on that
  range: \<open>\d\<close> is the ten ASCII digits, \<open>\s\<close> and \<open>str.isspace\<close> agree, and \<open>\w\<close> is the
  alphanumeric code points and the underscore.
\<close>

definition is_digit :: "char \<Rightarrow> bool" where
  "is_digit c = (c \<in> set ''0123456789'')"

definition is_alpha :: "char \<Rightarrow> bool" where
  "is_alpha c = (c \<in> set ''ABCDEFGHIJKLMNOPQRSTUVWXYZabcdefghijklmnopqrstuvwxyz'')"

definition is_space :: "char \<Rightarrow> bool" where
  "is_space c = (let n = (of_char c :: nat)
                 in (9 \<le> n \<and> n \<le> 13) \<or> (28 \<le> n \<and> n \<le> 32) \<or> n = 133 \<or> n = 160)"

definition is_word :: "char \<Rightarrow> bool" where
  "is_word c = (is_digit c \<or> is_alpha c \<or> c = CHR ''_'' \<or>
                (let n = (of_char c :: nat)
                 in n = 170 \<or> n = 178 \<or> n = 179 \<or> n = 181 \<or> n = 185 \<or> n = 186 \<or>
                    (188 \<le> n \<and> n \<le> 190) \<or> (192 \<le> n \<and> n \<noteq> 215 \<and> n \<noteq> 247)))"

definition lower_char :: "char \<Rightarrow> char" where
  "lower_char c = (case map_of (zip ''ABCDEFGHIJKLMNOPQRSTUVWXYZ''
                                    ''abcdefghijklmnopqrstuvwxyz'') c of
                     Some l \<Rightarrow> l
                   | None \<Rightarrow> (let n = (of_char c :: nat)
                              in if 192 \<le> n \<and> n \<le> 222 \<and> n \<noteq> 215 then char_of (n + 32) else c))"

definition lower :: "string \<Rightarrow> string" where
  "lower s = map lower_char s"

definition strip :: "string \<Rightarrow> string" where
  "strip s = rev (dropWhile is_space (rev (dropWhile is_space s)))"

definition digit_val :: "char \<Rightarrow> nat" where
  "digit_val c = length (takeWhile (\<lambda>d. d \<noteq> c) ''0123456789'')"

definition digit_char :: "nat \<Rightarrow> char" where
  "digit_char n = ''0123456789'' ! (n mod 10)"

text \<open>
  \<open>int(s)\<close> on the strings this program passes to it: decimal digits, possibly with
  surrounding whitespace. Anything else is a \<open>ValueError\<close>, the value \<open>None\<close>.
\<close>

definition py_int :: "string \<Rightarrow> nat option" where
  "py_int s = (let t = strip s
               in if t \<noteq> [] \<and> list_all is_digit t
                  then Some (foldl (\<lambda>n c. 10 * n + digit_val c) 0 t)
                  else None)"

fun index_of :: "'a \<Rightarrow> 'a list \<Rightarrow> nat option" where
  "index_of x [] = None"
| "index_of x (y # ys) = (if x = y then Some 0 else map_option Suc (index_of x ys))"


section \<open>Regular expressions, as backtracking matchers\<close>

text \<open>
  A match state is the character before the current position (for \<open>\b\<close>), the rest of
  the input, and the groups captured so far. A matcher returns the states it can end in,
  in the order a backtracking engine tries them: the head of the list is the match that
  \<open>re.match\<close> and \<open>re.search\<close> report.
\<close>

type_synonym mstate = "char option \<times> string \<times> (char \<times> string) list"
type_synonym rx = "mstate \<Rightarrow> mstate list"

fun rx_chr :: "(char \<Rightarrow> bool) \<Rightarrow> rx" where
  "rx_chr P (p, [], g) = []"
| "rx_chr P (p, c # cs, g) = (if P c then [(Some c, cs, g)] else [])"

definition rx_lit :: "char \<Rightarrow> rx" where
  "rx_lit c = rx_chr (\<lambda>x. x = c)"

definition rx_lit_ci :: "char \<Rightarrow> rx" where
  "rx_lit_ci c = rx_chr (\<lambda>x. lower_char x = lower_char c)"

definition rx_in :: "string \<Rightarrow> rx" where
  "rx_in cs = rx_chr (\<lambda>x. x \<in> set cs)"

definition rx_digit :: rx where
  "rx_digit = rx_chr is_digit"

fun rx_seqs :: "rx list \<Rightarrow> rx" where
  "rx_seqs [] st = [st]"
| "rx_seqs (a # as) st = concat (map (rx_seqs as) (a st))"

fun rx_alts :: "rx list \<Rightarrow> rx" where
  "rx_alts [] st = []"
| "rx_alts (a # as) st = a st @ rx_alts as st"

definition rx_opt :: "rx \<Rightarrow> rx" where
  "rx_opt a st = a st @ [st]"

text \<open>\<open>rx_rep lo hi a\<close> is the greedy \<open>a{lo,hi}\<close>.\<close>

fun rx_rep :: "nat \<Rightarrow> nat \<Rightarrow> rx \<Rightarrow> rx" where
  "rx_rep lo 0 a st = (if lo = 0 then [st] else [])"
| "rx_rep lo (Suc hi) a st =
     concat (map (rx_rep (lo - 1) hi a) (a st)) @ (if lo = 0 then [st] else [])"

text \<open>\<open>a+\<close> for a matcher that consumes a character each time it matches.\<close>

definition rx_plus :: "rx \<Rightarrow> rx" where
  "rx_plus a st = rx_rep 1 (length (fst (snd st))) a st"

definition rx_group :: "char \<Rightarrow> rx \<Rightarrow> rx" where
  "rx_group k a st =
     map (\<lambda>(p', s', g'). (p', s', g' @ [(k, take (length (fst (snd st)) - length s') (fst (snd st)))]))
         (a st)"

definition rx_wordb :: rx where
  "rx_wordb st =
     (let word_before = (case fst st of None \<Rightarrow> False | Some c \<Rightarrow> is_word c);
          word_after = (case fst (snd st) of [] \<Rightarrow> False | c # _ \<Rightarrow> is_word c)
      in if word_before \<noteq> word_after then [st] else [])"

definition rx_str_ci :: "string \<Rightarrow> rx" where
  "rx_str_ci s = rx_seqs (map rx_lit_ci s)"

text \<open>
  \<open>re_search\<close> tries every start position from the left and returns the first match: the
  matched text (group 0) and the groups.
\<close>

definition matched :: "string \<Rightarrow> mstate \<Rightarrow> string \<times> (char \<times> string) list" where
  "matched s st = (take (length s - length (fst (snd st))) s, snd (snd st))"

fun search_from :: "rx \<Rightarrow> char option \<Rightarrow> string \<Rightarrow> (string \<times> (char \<times> string) list) option" where
  "search_from r p [] =
     (case r (p, [], []) of [] \<Rightarrow> None | st # _ \<Rightarrow> Some (matched [] st))"
| "search_from r p (c # cs) =
     (case r (p, c # cs, []) of
        [] \<Rightarrow> search_from r (Some c) cs
      | st # _ \<Rightarrow> Some (matched (c # cs) st))"

definition re_search :: "rx \<Rightarrow> string \<Rightarrow> (string \<times> (char \<times> string) list) option" where
  "re_search r s = search_from r None s"

definition group :: "(char \<times> string) list \<Rightarrow> char \<Rightarrow> string" where
  "group g k = (case map_of g k of None \<Rightarrow> [] | Some v \<Rightarrow> v)"

section \<open>The standard library's \<open>datetime.strptime\<close> and \<open>strftime\<close>\<close>

text \<open>
  \<open>datetime.strptime\<close> turns the format into a regular expression (one named group per
  directive, literal characters matched case-insensitively, each run of whitespace as
  \<open>\s+\<close>), matches it at the start of the data, demands that the match ends at the end of
  the data, converts the groups, and builds the datetime, which checks the calendar.
  Every failure is a \<open>ValueError\<close>: the value \<open>None\<close>. The table holds the directives that
  occur in the formats of this program, in the default (C) locale.
\<close>

definition a_month :: "string list" where
  "a_month = ['''', ''jan'', ''feb'', ''mar'', ''apr'', ''may'', ''jun'',
              ''jul'', ''aug'', ''sep'', ''oct'', ''nov'', ''dec'']"

definition f_month :: "string list" where
  "f_month = ['''', ''january'', ''february'', ''march'', ''april'', ''may'', ''june'',
              ''july'', ''august'', ''september'', ''october'', ''november'', ''december'']"

text \<open>\<open>__seqToRE\<close>: the names as alternatives, longest first (a stable sort).\<close>

definition seqToRE :: "string list \<Rightarrow> rx" where
  "seqToRE to_convert =
     rx_alts (map rx_str_ci (rev (sort_key length (rev to_convert))))"

definition nonzero_digit :: rx where
  "nonzero_digit = rx_in ''123456789''"

definition re_d :: rx where
  \<comment> \<open>\<open>3[0-1]|[1-2]\d|0[1-9]|[1-9]| [1-9]\<close>\<close>
  "re_d = rx_alts [rx_seqs [rx_lit (CHR ''3''), rx_in ''01''],
                   rx_seqs [rx_in ''12'', rx_digit],
                   rx_seqs [rx_lit (CHR ''0''), nonzero_digit],
                   nonzero_digit,
                   rx_seqs [rx_lit (CHR '' ''), nonzero_digit]]"

definition re_H :: rx where
  \<comment> \<open>\<open>2[0-3]|[0-1]\d|\d\<close>\<close>
  "re_H = rx_alts [rx_seqs [rx_lit (CHR ''2''), rx_in ''0123''],
                   rx_seqs [rx_in ''01'', rx_digit],
                   rx_digit]"

definition re_m :: rx where
  \<comment> \<open>\<open>1[0-2]|0[1-9]|[1-9]\<close>\<close>
  "re_m = rx_alts [rx_seqs [rx_lit (CHR ''1''), rx_in ''012''],
                   rx_seqs [rx_lit (CHR ''0''), nonzero_digit],
                   nonzero_digit]"

definition re_M :: rx where
  \<comment> \<open>\<open>[0-5]\d|\d\<close>\<close>
  "re_M = rx_alts [rx_seqs [rx_in ''012345'', rx_digit], rx_digit]"

definition re_S :: rx where
  \<comment> \<open>\<open>6[0-1]|[0-5]\d|\d\<close>\<close>
  "re_S = rx_alts [rx_seqs [rx_lit (CHR ''6''), rx_in ''01''],
                   rx_seqs [rx_in ''012345'', rx_digit],
                   rx_digit]"

definition re_y :: rx where
  "re_y = rx_seqs [rx_digit, rx_digit]"

definition re_Y :: rx where
  "re_Y = rx_seqs [rx_digit, rx_digit, rx_digit, rx_digit]"

definition re_z :: rx where
  \<comment> \<open>\<open>[+-]\d\d:?[0-5]\d(:?[0-5]\d(\.\d{1,6})?)?|(?-i:Z)\<close>\<close>
  "re_z = rx_alts
     [rx_seqs [rx_in ''+-'', rx_digit, rx_digit, rx_opt (rx_lit (CHR '':'')),
               rx_in ''012345'', rx_digit,
               rx_opt (rx_seqs [rx_opt (rx_lit (CHR '':'')), rx_in ''012345'', rx_digit,
                                rx_opt (rx_seqs [rx_lit (CHR ''.''), rx_rep 1 6 rx_digit])])],
      rx_lit (CHR ''Z'')]"

definition time_re :: "char \<Rightarrow> rx option" where
  "time_re d =
     (if d = CHR ''d'' then Some re_d
      else if d = CHR ''H'' then Some re_H
      else if d = CHR ''m'' then Some re_m
      else if d = CHR ''M'' then Some re_M
      else if d = CHR ''S'' then Some re_S
      else if d = CHR ''y'' then Some re_y
      else if d = CHR ''Y'' then Some re_Y
      else if d = CHR ''z'' then Some re_z
      else if d = CHR ''B'' then Some (seqToRE (tl f_month))
      else if d = CHR ''b'' then Some (seqToRE (tl a_month))
      else None)"

text \<open>
  \<open>TimeRE.pattern\<close>, applied to the format from left to right: a directive becomes its
  named group, a run of whitespace becomes \<open>\s+\<close>, any other character is itself.
\<close>

function pattern :: "string \<Rightarrow> rx list option" where
  "pattern [] = Some []"
| "pattern (c # cs) =
     (if c = CHR ''%'' then
        (case cs of
           [] \<Rightarrow> None
         | d # ds \<Rightarrow>
             (case time_re d of
                None \<Rightarrow> None
              | Some r \<Rightarrow> map_option ((#) (rx_group d r)) (pattern ds)))
      else if is_space c then
        map_option ((#) (rx_plus (rx_chr is_space))) (pattern (dropWhile is_space cs))
      else map_option ((#) (rx_lit_ci c)) (pattern cs))"
  by pat_completeness auto
termination
  by (relation "measure length") (auto simp: length_dropWhile_le less_Suc_eq_le)

record tm =
  tm_year :: "nat option"
  tm_month :: nat
  tm_day :: nat
  tm_hour :: nat
  tm_minute :: nat
  tm_second :: nat
  tm_gmtoff :: "(int \<times> int) option"

definition tm_init :: tm where
  "tm_init = \<lparr>tm_year = None, tm_month = 1, tm_day = 1, tm_hour = 0, tm_minute = 0,
              tm_second = 0, tm_gmtoff = None\<rparr>"

text \<open>The conversion of the \<open>%z\<close> group: seconds and microseconds east of UTC.\<close>

definition conv_z :: "string \<Rightarrow> (int \<times> int) option" where
  "conv_z z0 =
     (if z0 = ''Z'' then Some (0, 0)
      else
        (let z1 = (if take 1 (drop 3 z0) = '':''
                   then (let z = take 3 z0 @ drop 4 z0
                         in if length z > 5
                            then (if take 1 (drop 5 z) \<noteq> '':'' then None
                                  else Some (take 5 z @ drop 6 z))
                            else Some z)
                   else Some z0)
         in case z1 of
              None \<Rightarrow> None
            | Some z \<Rightarrow>
                (case (py_int (take 2 (drop 1 z)), py_int (take 2 (drop 3 z)),
                       (if take 2 (drop 5 z) = [] then Some 0 else py_int (take 2 (drop 5 z))),
                       py_int (drop 8 z @ replicate (6 - length (drop 8 z)) (CHR ''0''))) of
                   (Some hours, Some minutes, Some seconds, Some fraction) \<Rightarrow>
                     (let gmtoff = int (hours * 60 * 60 + minutes * 60 + seconds)
                      in if take 1 z = ''-'' then Some (- gmtoff, - int fraction)
                         else Some (gmtoff, int fraction))
                 | _ \<Rightarrow> None)))"

definition conv_group :: "char \<times> string \<Rightarrow> tm \<Rightarrow> tm option" where
  "conv_group kv t =
     (let k = fst kv; v = snd kv
      in if k = CHR ''y'' then
           map_option (\<lambda>n. t\<lparr>tm_year := Some (if n \<le> 68 then n + 2000 else n + 1900)\<rparr>) (py_int v)
         else if k = CHR ''Y'' then map_option (\<lambda>n. t\<lparr>tm_year := Some n\<rparr>) (py_int v)
         else if k = CHR ''m'' then map_option (\<lambda>n. t\<lparr>tm_month := n\<rparr>) (py_int v)
         else if k = CHR ''B'' then map_option (\<lambda>n. t\<lparr>tm_month := n\<rparr>) (index_of (lower v) f_month)
         else if k = CHR ''b'' then map_option (\<lambda>n. t\<lparr>tm_month := n\<rparr>) (index_of (lower v) a_month)
         else if k = CHR ''d'' then map_option (\<lambda>n. t\<lparr>tm_day := n\<rparr>) (py_int v)
         else if k = CHR ''H'' then map_option (\<lambda>n. t\<lparr>tm_hour := n\<rparr>) (py_int v)
         else if k = CHR ''M'' then map_option (\<lambda>n. t\<lparr>tm_minute := n\<rparr>) (py_int v)
         else if k = CHR ''S'' then map_option (\<lambda>n. t\<lparr>tm_second := n\<rparr>) (py_int v)
         else if k = CHR ''z'' then map_option (\<lambda>off. t\<lparr>tm_gmtoff := Some off\<rparr>) (conv_z v)
         else Some t)"

fun conv_groups :: "(char \<times> string) list \<Rightarrow> tm \<Rightarrow> tm option" where
  "conv_groups [] t = Some t"
| "conv_groups (kv # kvs) t =
     (case conv_group kv t of None \<Rightarrow> None | Some t' \<Rightarrow> conv_groups kvs t')"

definition is_leap :: "nat \<Rightarrow> bool" where
  "is_leap y = (y mod 4 = 0 \<and> (y mod 100 \<noteq> 0 \<or> y mod 400 = 0))"

definition days_in_month :: "nat \<Rightarrow> nat \<Rightarrow> nat" where
  "days_in_month y m =
     (if m = 2 then (if is_leap y then 29 else 28)
      else if m = 4 \<or> m = 6 \<or> m = 9 \<or> m = 11 then 30 else 31)"

record datetime =
  dt_year :: nat
  dt_month :: nat
  dt_day :: nat
  dt_hour :: nat
  dt_minute :: nat
  dt_second :: nat

text \<open>
  The constructor's checks: the date exists in the calendar of years 1 to 9999, the time
  of day is in range (the \<open>%S\<close> group admits 60 and 61, the constructor does not), and a
  UTC offset is strictly less than 24 hours in size.
\<close>

definition make_datetime :: "tm \<Rightarrow> datetime option" where
  "make_datetime t =
     (let y = (case tm_year t of None \<Rightarrow> 1900 | Some y \<Rightarrow> y)
      in if 1 \<le> y \<and> y \<le> 9999 \<and> 1 \<le> tm_month t \<and> tm_month t \<le> 12 \<and>
            1 \<le> tm_day t \<and> tm_day t \<le> days_in_month y (tm_month t) \<and>
            tm_hour t < 24 \<and> tm_minute t < 60 \<and> tm_second t < 60 \<and>
            (case tm_gmtoff t of
               None \<Rightarrow> True
             | Some (sec, usec) \<Rightarrow> \<bar>sec * 1000000 + usec\<bar> < 86400 * 1000000)
         then Some \<lparr>dt_year = y, dt_month = tm_month t, dt_day = tm_day t,
                    dt_hour = tm_hour t, dt_minute = tm_minute t, dt_second = tm_second t\<rparr>
         else None)"

definition strptime :: "string \<Rightarrow> string \<Rightarrow> datetime option" where
  "strptime data_string format =
     (case pattern format of
        None \<Rightarrow> None
      | Some rs \<Rightarrow>
          (case rx_seqs rs (None, data_string, []) of
             [] \<Rightarrow> None
           | (p, rest, found_dict) # _ \<Rightarrow>
               if rest \<noteq> [] then None
               else (case conv_groups found_dict tm_init of
                       None \<Rightarrow> None
                     | Some t \<Rightarrow> make_datetime t)))"

definition pad2 :: "nat \<Rightarrow> string" where
  "pad2 n = [digit_char (n div 10), digit_char n]"

definition pad4 :: "nat \<Rightarrow> string" where
  "pad4 n = [digit_char (n div 1000), digit_char (n div 100), digit_char (n div 10), digit_char n]"

text \<open>
  \<open>dt.strftime("%Y-%m-%d")\<close>. The year is printed by the C library's \<open>strftime\<close>, which
  (glibc, under CPython 3.12) writes it as a plain decimal number with no leading zeros:
  the year 999 is \<open>999\<close>. The year of a datetime is between 1 and 9999, so this is its
  four-digit form without the leading zeros. Month and day are two digits each.
\<close>

definition year_str :: "nat \<Rightarrow> string" where
  "year_str n = dropWhile (\<lambda>c. c = CHR ''0'') (pad4 n)"

definition strftime_ymd :: "datetime \<Rightarrow> string" where
  "strftime_ymd dt =
     year_str (dt_year dt) @ ''-'' @ pad2 (dt_month dt) @ ''-'' @ pad2 (dt_day dt)"


section \<open>\<open>parse_date_to_iso\<close>\<close>

definition patterns :: "string list list" where
  "patterns =
     [[''%Y-%m-%d''],
      [''%Y-%m-%dT%H:%M:%S%z'', ''%Y-%m-%dT%H:%M:%S''],
      [''%b %d, %Y'', ''%B %d, %Y''],
      [''%m/%d/%Y'', ''%d/%m/%Y''],
      [''%Y/%m/%d''],
      [''%d-%b-%y'', ''%d-%B-%Y'']]"

text \<open>The two nested loops: the first format that parses returns, a \<open>ValueError\<close> continues.\<close>

fun try_group :: "string \<Rightarrow> string list \<Rightarrow> string option" where
  "try_group date_str [] = None"
| "try_group date_str (fmt # rest) =
     (case strptime (strip date_str) fmt of
        Some dt \<Rightarrow> Some (strftime_ymd dt)
      | None \<Rightarrow> try_group date_str rest)"

fun try_patterns :: "string \<Rightarrow> string list list \<Rightarrow> string option" where
  "try_patterns date_str [] = None"
| "try_patterns date_str (pattern_group # rest) =
     (case try_group date_str pattern_group of
        Some iso_date \<Rightarrow> Some iso_date
      | None \<Rightarrow> try_patterns date_str rest)"

definition ymd_re :: rx where
  \<comment> \<open>\<open>(\d{4})[\/\-](\d{2})[\/\-](\d{2})\<close>\<close>
  "ymd_re = rx_seqs [rx_group (CHR ''1'') (rx_rep 4 4 rx_digit), rx_in ''/-'',
                     rx_group (CHR ''2'') (rx_rep 2 2 rx_digit), rx_in ''/-'',
                     rx_group (CHR ''3'') (rx_rep 2 2 rx_digit)]"

definition year_re :: rx where
  \<comment> \<open>\<open>(\d{4})\<close>\<close>
  "year_re = rx_group (CHR ''1'') (rx_rep 4 4 rx_digit)"

definition parse_date_to_iso :: "string option \<Rightarrow> string option" where
  "parse_date_to_iso date_str =
     (case date_str of
        None \<Rightarrow> None
      | Some s \<Rightarrow>
          if s = [] then None
          else
            (case try_patterns s patterns of
               Some iso_date \<Rightarrow> Some iso_date
             | None \<Rightarrow>
                 (case re_search ymd_re s of
                    Some (m, g) \<Rightarrow>
                      Some (group g (CHR ''1'') @ ''-'' @ group g (CHR ''2'') @ ''-'' @ group g (CHR ''3''))
                  | None \<Rightarrow>
                      (case re_search year_re s of
                         Some (m, g) \<Rightarrow> Some (group g (CHR ''1'') @ ''-01-01'')
                       | None \<Rightarrow> None))))"

section \<open>Parsed documents\<close>

text \<open>
  The parsed document (\<open>BeautifulSoup\<close>) is modelled by what the program reads of it: its
  elements in document order, each with its tag name, its attributes, the tokens of its
  \<open>class\<close> attribute and the result of \<open>get_text()\<close>. \<open>soup.find\<close> returns the first element
  that satisfies all its criteria, or \<open>None\<close>. An element is always truthy.
\<close>

record element =
  el_name :: string
  el_attrs :: "(string \<times> string) list"
  el_class :: "string list"
  el_text :: string

type_synonym document = "element list"

definition soup_find :: "document \<Rightarrow> (element \<Rightarrow> bool) \<Rightarrow> element option" where
  "soup_find soup crit = List.find crit soup"

definition get :: "element \<Rightarrow> string \<Rightarrow> string option" where
  "get e attr = map_of (el_attrs e) attr"

definition meta_property :: "string \<Rightarrow> element \<Rightarrow> bool" where
  \<comment> \<open>\<open>find("meta", property=v)\<close>\<close>
  "meta_property v e = (el_name e = ''meta'' \<and> get e ''property'' = Some v)"

definition meta_name :: "string \<Rightarrow> element \<Rightarrow> bool" where
  \<comment> \<open>\<open>find("meta", attrs={"name": v})\<close>\<close>
  "meta_name v e = (el_name e = ''meta'' \<and> get e ''name'' = Some v)"

definition time_with_datetime :: "element \<Rightarrow> bool" where
  \<comment> \<open>\<open>find("time", {"datetime": True})\<close>\<close>
  "time_with_datetime e = (el_name e = ''time'' \<and> get e ''datetime'' \<noteq> None)"

definition div_class :: "string \<Rightarrow> element \<Rightarrow> bool" where
  \<comment> \<open>\<open>find("div", class_=c)\<close>\<close>
  "div_class c e = (el_name e = ''div'' \<and> c \<in> set (el_class e))"

definition any_class :: "string \<Rightarrow> element \<Rightarrow> bool" where
  \<comment> \<open>\<open>find(class_=c)\<close>\<close>
  "any_class c e = (c \<in> set (el_class e))"

text \<open>Python's \<open>a or b\<close> on values that are \<open>None\<close> or truthy.\<close>

definition py_or :: "'a option \<Rightarrow> 'a option \<Rightarrow> 'a option" where
  "py_or a b = (case a of None \<Rightarrow> b | Some x \<Rightarrow> Some x)"


section \<open>\<open>extract_date\<close>\<close>

definition date_sources :: "document \<Rightarrow> (element option \<times> string) list" where
  "date_sources soup =
     [(soup_find soup (meta_property ''article:modified_time''), ''content''),
      (soup_find soup (meta_property ''article:published_time''), ''content''),
      (soup_find soup time_with_datetime, ''datetime'')]"

text \<open>
  One turn of the loop over the sources: the element is present, its attribute is a
  non-empty string, and that string normalizes (to a non-empty string).
\<close>

definition source_date :: "element option \<times> string \<Rightarrow> string option" where
  "source_date src =
     (case fst src of
        None \<Rightarrow> None
      | Some element \<Rightarrow>
          (case get element (snd src) of
             None \<Rightarrow> None
           | Some date_str \<Rightarrow>
               if date_str = [] then None
               else (case parse_date_to_iso (Some date_str) of
                       None \<Rightarrow> None
                     | Some iso_date \<Rightarrow> if iso_date = [] then None else Some iso_date)))"

fun scan_sources :: "(element option \<times> string) list \<Rightarrow> string option" where
  "scan_sources [] = None"
| "scan_sources (src # rest) =
     (case source_date src of
        Some iso_date \<Rightarrow> Some iso_date
      | None \<Rightarrow> scan_sources rest)"

definition rx_alpha :: rx where
  "rx_alpha = rx_chr is_alpha"

definition iso_pattern :: rx where
  \<comment> \<open>\<open>\b\d{4}-\d{2}-\d{2}\b\<close>\<close>
  "iso_pattern =
     rx_seqs [rx_wordb, rx_rep 4 4 rx_digit, rx_lit (CHR ''-''), rx_rep 2 2 rx_digit,
              rx_lit (CHR ''-''), rx_rep 2 2 rx_digit, rx_wordb]"

definition month_day_year_pattern :: rx where
  \<comment> \<open>\<open>\b[A-Za-z]{3,9} \d{1,2},? \d{4}\b\<close>\<close>
  "month_day_year_pattern =
     rx_seqs [rx_wordb, rx_rep 3 9 rx_alpha, rx_lit (CHR '' ''), rx_rep 1 2 rx_digit,
              rx_opt (rx_lit (CHR '','')), rx_lit (CHR '' ''), rx_rep 4 4 rx_digit, rx_wordb]"

definition day_month_year_pattern :: rx where
  \<comment> \<open>\<open>\b\d{1,2} [A-Za-z]{3,9} \d{4}\b\<close>\<close>
  "day_month_year_pattern =
     rx_seqs [rx_wordb, rx_rep 1 2 rx_digit, rx_lit (CHR '' ''), rx_rep 3 9 rx_alpha,
              rx_lit (CHR '' ''), rx_rep 4 4 rx_digit, rx_wordb]"

definition numeric_pattern :: rx where
  \<comment> \<open>\<open>\b\d{1,2}[/\-]\d{1,2}[/\-]\d{2,4}\b\<close>\<close>
  "numeric_pattern =
     rx_seqs [rx_wordb, rx_rep 1 2 rx_digit, rx_in ''/-'', rx_rep 1 2 rx_digit,
              rx_in ''/-'', rx_rep 2 4 rx_digit, rx_wordb]"

definition date_patterns :: "rx list" where
  "date_patterns =
     [iso_pattern, month_day_year_pattern, day_month_year_pattern, numeric_pattern]"

fun scan_patterns :: "rx list \<Rightarrow> string \<Rightarrow> string option" where
  "scan_patterns [] txt = None"
| "scan_patterns (r # rest) txt =
     (case re_search r txt of
        None \<Rightarrow> scan_patterns rest txt
      | Some (m, g) \<Rightarrow>
          (case parse_date_to_iso (Some m) of
             None \<Rightarrow> scan_patterns rest txt
           | Some iso_date \<Rightarrow> if iso_date = [] then scan_patterns rest txt else Some iso_date))"

text \<open>The fallback after the loop: the text search in the post header.\<close>

definition post_header_date :: "document \<Rightarrow> string option" where
  "post_header_date soup =
     (case py_or (soup_find soup (div_class ''post-header''))
                 (soup_find soup (any_class ''article-header'')) of
        None \<Rightarrow> None
      | Some post_header \<Rightarrow> scan_patterns date_patterns (el_text post_header))"

definition extract_date :: "document \<Rightarrow> string option" where
  "extract_date soup =
     (case scan_sources (date_sources soup) of
        Some iso_date \<Rightarrow> Some iso_date
      | None \<Rightarrow> post_header_date soup)"


section \<open>\<open>extract_metadata_from_url\<close>\<close>

text \<open>
  The returned dictionary, with an absent \<open>error\<close> key as \<open>None\<close>. The network request and
  the HTML parser are the parameter \<open>fetch\<close>: for a URL, either the message of the
  exception they raise or the parsed document. Inside the \<open>try\<close> block, subscripting the
  \<open>og:title\<close> element with \<open>"content"\<close> raises \<open>KeyError\<close> when the attribute is missing; the
  handler turns every exception into a record that carries its message.
\<close>

record metadata =
  md_url :: string
  md_og_title :: "string option"
  md_author :: "string option"
  md_article_date :: "string option"
  md_error :: "string option"

definition getitem :: "element \<Rightarrow> string \<Rightarrow> string + string" where
  \<comment> \<open>\<open>element[key]\<close>; \<open>Inl\<close> is \<open>str(KeyError(key))\<close>\<close>
  "getitem e key =
     (case get e key of
        None \<Rightarrow> Inl ([CHR 0x27] @ key @ [CHR 0x27])
      | Some v \<Rightarrow> Inr v)"

definition failure :: "string \<Rightarrow> string \<Rightarrow> metadata" where
  "failure u e = \<lparr>md_url = u, md_og_title = None, md_author = None,
                   md_article_date = None, md_error = Some e\<rparr>"

definition find_author_meta :: "document \<Rightarrow> element option" where
  "find_author_meta soup =
     py_or (soup_find soup (meta_name ''author''))
           (py_or (soup_find soup (meta_property ''article:author''))
                  (soup_find soup (meta_property ''og:author'')))"

definition extract_metadata_from_url :: "(string \<Rightarrow> string + document) \<Rightarrow> string \<Rightarrow> metadata" where
  "extract_metadata_from_url fetch u =
     (case fetch u of
        Inl e \<Rightarrow> failure u e
      | Inr soup \<Rightarrow>
          (case (case soup_find soup (meta_property ''og:title'') of
                   None \<Rightarrow> Inr None
                 | Some t \<Rightarrow> map_sum id Some (getitem t ''content'')) of
             Inl e \<Rightarrow> failure u e
           | Inr title \<Rightarrow>
               \<lparr>md_url = u,
                md_og_title = title,
                md_author = (case find_author_meta soup of
                               None \<Rightarrow> None
                             | Some author_meta \<Rightarrow> get author_meta ''content''),
                md_article_date = extract_date soup,
                md_error = None\<rparr>))"

section \<open>The year-only fallback in the specification's words\<close>

text \<open>
  The leftmost four consecutive digits of a string, if it has any: the first position
  from the left at which four digits stand in a row, whatever follows them.
\<close>

fun first_four_digits :: "string \<Rightarrow> string option" where
  "first_four_digits [] = None"
| "first_four_digits (c # cs) =
     (if 4 \<le> length (c # cs) \<and> list_all is_digit (take 4 (c # cs)) then Some (take 4 (c # cs))
      else first_four_digits cs)"


section \<open>Example documents\<close>

definition doc_post_header :: document where
  \<comment> \<open>only a post-header block, with the text "Updated: 5 March 2024"\<close>
  "doc_post_header =
     [\<lparr>el_name = ''div'', el_attrs = [(''class'', ''post-header'')],
       el_class = [''post-header''], el_text = ''Updated: 5 March 2024''\<rparr>]"

definition doc_modified_unparseable :: document where
  \<comment> \<open>a modified-time tag that does not normalize, then a valid published-time tag\<close>
  "doc_modified_unparseable =
     [\<lparr>el_name = ''meta'',
       el_attrs = [(''property'', ''article:modified_time''), (''content'', ''soon'')],
       el_class = [], el_text = []\<rparr>,
      \<lparr>el_name = ''meta'',
       el_attrs = [(''property'', ''article:published_time''), (''content'', ''2025-02-15'')],
       el_class = [], el_text = []\<rparr>]"

definition doc_modified_only :: document where
  \<comment> \<open>the same modified-time tag, and no other date source\<close>
  "doc_modified_only =
     [\<lparr>el_name = ''meta'',
       el_attrs = [(''property'', ''article:modified_time''), (''content'', ''soon'')],
       el_class = [], el_text = []\<rparr>]"

definition doc_modified_and_published :: document where
  "doc_modified_and_published =
     [\<lparr>el_name = ''meta'',
       el_attrs = [(''property'', ''article:modified_time''), (''content'', ''2025-02-15'')],
       el_class = [], el_text = []\<rparr>,
      \<lparr>el_name = ''meta'',
       el_attrs = [(''property'', ''article:published_time''), (''content'', ''2024-01-31'')],
       el_class = [], el_text = []\<rparr>]"

definition doc_modified_and_time :: document where
  "doc_modified_and_time =
     [\<lparr>el_name = ''meta'',
       el_attrs = [(''property'', ''article:modified_time''), (''content'', ''2025-02-15'')],
       el_class = [], el_text = []\<rparr>,
      \<lparr>el_name = ''time'', el_attrs = [(''datetime'', ''2020-05-06'')],
       el_class = [], el_text = ''May 6''\<rparr>]"

definition doc_title_without_content :: document where
  \<comment> \<open>an \<open>og:title\<close> tag with no \<open>content\<close> attribute\<close>
  "doc_title_without_content =
     [\<lparr>el_name = ''meta'', el_attrs = [(''property'', ''og:title'')],
       el_class = [], el_text = []\<rparr>]"

definition doc_author_without_content :: document where
  \<comment> \<open>a \<open>name=author\<close> tag with no \<open>content\<close>, then an \<open>og:author\<close> tag with one\<close>
  "doc_author_without_content =
     [\<lparr>el_name = ''meta'', el_attrs = [(''name'', ''author'')],
       el_class = [], el_text = []\<rparr>,
      \<lparr>el_name = ''meta'', el_attrs = [(''property'', ''og:author''), (''content'', ''Ada'')],
       el_class = [], el_text = []\<rparr>]"

definition doc_title_only :: document where
  \<comment> \<open>an \<open>og:title\<close> tag with a \<open>content\<close> attribute, and nothing else\<close>
  "doc_title_only =
     [\<lparr>el_name = ''meta'', el_attrs = [(''property'', ''og:title''), (''content'', ''Hello'')],
       el_class = [], el_text = []\<rparr>]"


section \<open>The candidate locator\<close>

lemma scan_sources_first_success:
  assumes "i < length srcs"
    and "\<forall>j<i. source_date (srcs ! j) = None"
    and "source_date (srcs ! i) = Some d"
  shows "scan_sources srcs = Some d"
  using assms
proof (induction srcs arbitrary: i)
  case Nil
  then show ?case by simp
next
  case (Cons src rest)
  show ?case
  proof (cases i)
    case 0
    with Cons.prems show ?thesis by simp
  next
    case (Suc k)
    from Cons.prems Suc have head: "source_date src = None" by auto
    from Cons.prems Suc have "k < length rest" by simp
    moreover from Cons.prems Suc have "\<forall>j<k. source_date (rest ! j) = None" by auto
    moreover from Cons.prems Suc have "source_date (rest ! k) = Some d" by simp
    ultimately have "scan_sources rest = Some d" by (rule Cons.IH)
    with head show ?thesis by simp
  qed
qed

lemma scan_sources_all_fail:
  "\<forall>j<length srcs. source_date (srcs ! j) = None \<Longrightarrow> scan_sources srcs = None"
proof (induction srcs)
  case Nil
  then show ?case by simp
next
  case (Cons src rest)
  from Cons.prems have "source_date src = None" by auto
  moreover from Cons.prems have "\<forall>j<length rest. source_date (rest ! j) = None" by auto
  ultimately show ?case using Cons.IH by simp
qed

lemma length_date_sources: "length (date_sources soup) = 3"
  by (simp add: date_sources_def)

lemma strftime_ymd_nonempty: "strftime_ymd dt \<noteq> []"
  by (simp add: strftime_ymd_def)

lemma try_group_nonempty: "try_group s fmts = Some r \<Longrightarrow> r \<noteq> []"
  by (induction fmts) (auto simp: strftime_ymd_nonempty split: option.splits)

lemma try_patterns_nonempty: "try_patterns s groups = Some r \<Longrightarrow> r \<noteq> []"
  by (induction groups) (auto dest: try_group_nonempty split: option.splits)

lemma parse_date_to_iso_nonempty: "parse_date_to_iso x = Some r \<Longrightarrow> r \<noteq> []"
  by (auto simp: parse_date_to_iso_def dest: try_patterns_nonempty
           split: option.splits if_splits)

text \<open>
  Claim C1. The locator tries the sources in order: the \<open>article:modified_time\<close> tag, the
  \<open>article:published_time\<close> tag, the \<open>time\<close> element's \<open>datetime\<close> attribute, then the
  header text. A source that is missing or whose candidate fails normalization is skipped:
  the first source that normalizes gives the result, and when none of the three does the
  result is that of the header search. In particular a \<open>modified_time\<close> tag whose value
  does not normalize does not keep a valid \<open>published_time\<close> tag from giving the result.
\<close>

theorem locate_advances_past_failed_sources:
  "(\<forall>i<3. (\<forall>j<i. source_date (date_sources soup ! j) = None) \<longrightarrow>
           source_date (date_sources soup ! i) = Some d \<longrightarrow> extract_date soup = Some d) \<and>
   ((\<forall>j<3. source_date (date_sources soup ! j) = None) \<longrightarrow>
      extract_date soup = post_header_date soup) \<and>
   (soup_find soup (meta_property ''article:modified_time'') = Some e1 \<longrightarrow>
      get e1 ''content'' = Some v1 \<longrightarrow> parse_date_to_iso (Some v1) = None \<longrightarrow>
      soup_find soup (meta_property ''article:published_time'') = Some e2 \<longrightarrow>
      get e2 ''content'' = Some v2 \<longrightarrow> parse_date_to_iso (Some v2) = Some d \<longrightarrow>
      extract_date soup = Some d)"
proof (intro conjI allI impI)
  fix i
  assume "i < 3" and "\<forall>j<i. source_date (date_sources soup ! j) = None"
    and "source_date (date_sources soup ! i) = Some d"
  then have "scan_sources (date_sources soup) = Some d"
    by (intro scan_sources_first_success) (simp_all add: length_date_sources)
  then show "extract_date soup = Some d" by (simp add: extract_date_def)
next
  assume "\<forall>j<3. source_date (date_sources soup ! j) = None"
  then have "scan_sources (date_sources soup) = None"
    by (intro scan_sources_all_fail) (simp add: length_date_sources)
  then show "extract_date soup = post_header_date soup" by (simp add: extract_date_def)
next
  assume m: "soup_find soup (meta_property ''article:modified_time'') = Some e1"
    "get e1 ''content'' = Some v1" "parse_date_to_iso (Some v1) = None"
    and p: "soup_find soup (meta_property ''article:published_time'') = Some e2"
    "get e2 ''content'' = Some v2" "parse_date_to_iso (Some v2) = Some d"
  from p(3) have "d \<noteq> []" by (rule parse_date_to_iso_nonempty)
  moreover from p(3) have "v2 \<noteq> []" by (auto simp: parse_date_to_iso_def)
  ultimately show "extract_date soup = Some d"
    using m p by (simp add: extract_date_def date_sources_def source_date_def)
qed

theorem locate_advances_past_failed_sources_witness:
  "soup_find doc_modified_unparseable (meta_property ''article:modified_time'') =
     Some \<lparr>el_name = ''meta'',
            el_attrs = [(''property'', ''article:modified_time''), (''content'', ''soon'')],
            el_class = [], el_text = []\<rparr> \<and>
   parse_date_to_iso (Some ''soon'') = None \<and>
   soup_find doc_modified_unparseable (meta_property ''article:published_time'') =
     Some \<lparr>el_name = ''meta'',
            el_attrs = [(''property'', ''article:published_time''), (''content'', ''2025-02-15'')],
            el_class = [], el_text = []\<rparr> \<and>
   parse_date_to_iso (Some ''2025-02-15'') = Some ''2025-02-15'' \<and>
   extract_date doc_modified_unparseable = Some ''2025-02-15''"
proof -
  let ?e1 = "\<lparr>el_name = ''meta'',
            el_attrs = [(''property'', ''article:modified_time''), (''content'', ''soon'')],
            el_class = [], el_text = []\<rparr>"
  let ?e2 = "\<lparr>el_name = ''meta'',
            el_attrs = [(''property'', ''article:published_time''), (''content'', ''2025-02-15'')],
            el_class = [], el_text = []\<rparr>"
  have m1: "soup_find doc_modified_unparseable (meta_property ''article:modified_time'') = Some ?e1"
    by code_simp
  have m2: "get ?e1 ''content'' = Some ''soon''" by code_simp
  have m3: "parse_date_to_iso (Some ''soon'') = None" by code_simp
  have p1: "soup_find doc_modified_unparseable (meta_property ''article:published_time'') = Some ?e2"
    by code_simp
  have p2: "get ?e2 ''content'' = Some ''2025-02-15''" by code_simp
  have p3: "parse_date_to_iso (Some ''2025-02-15'') = Some ''2025-02-15''" by code_simp
  have "extract_date doc_modified_unparseable = Some ''2025-02-15''"
    using locate_advances_past_failed_sources
      [of doc_modified_unparseable "''2025-02-15''" ?e1 "''soon''" ?e2 "''2025-02-15''"]
      m1 m2 m3 p1 p2 p3 by blast
  with m1 m3 p1 p3 show ?thesis by blast
qed

lemma scan_sources_take:
  "i < length srcs \<Longrightarrow> source_date (srcs ! i) \<noteq> None \<Longrightarrow>
   scan_sources srcs = scan_sources (take (Suc i) srcs)"
proof (induction srcs arbitrary: i)
  case Nil
  then show ?case by simp
next
  case (Cons src rest)
  show ?case
  proof (cases i)
    case 0
    with Cons.prems show ?thesis by (auto split: option.splits)
  next
    case (Suc k)
    with Cons.prems have "scan_sources rest = scan_sources (take (Suc k) rest)"
      by (intro Cons.IH) simp_all
    with Suc show ?thesis by (simp split: option.splits)
  qed
qed

text \<open>
  Claim C2, as amended. The claim as written (the locator returns at the first tag that is
  present, whether or not its value normalizes) does not hold: a present tag whose value
  does not normalize is passed over. What holds is precedence among the sources that
  normalize: once a source normalizes, no later source is consulted. Two documents whose
  sources agree up to one that normalizes get the same date, whatever their later sources
  and header text are.
\<close>

theorem normalized_source_hides_later_sources:
  assumes "i < 3"
    and "take (Suc i) (date_sources soup) = take (Suc i) (date_sources soup')"
    and "source_date (date_sources soup ! i) \<noteq> None"
  shows "extract_date soup = extract_date soup' \<and> extract_date soup \<noteq> None"
proof -
  have eq: "date_sources soup ! i = date_sources soup' ! i"
    using assms(1,2) by (metis lessI nth_take)
  have a: "scan_sources (date_sources soup) = scan_sources (take (Suc i) (date_sources soup))"
    using assms(1,3) by (intro scan_sources_take) (simp_all add: length_date_sources)
  have b: "scan_sources (date_sources soup') = scan_sources (take (Suc i) (date_sources soup'))"
    using assms(1,3) eq by (intro scan_sources_take) (simp_all add: length_date_sources)
  from a b assms(2) have same: "scan_sources (date_sources soup) = scan_sources (date_sources soup')"
    by simp
  obtain d where d: "source_date (date_sources soup ! i) = Some d"
    using assms(3) by auto
  have "scan_sources (date_sources soup) \<noteq> None"
  proof
    assume n: "scan_sources (date_sources soup) = None"
    have "\<And>srcs. scan_sources srcs = None \<Longrightarrow> \<forall>j<length srcs. source_date (srcs ! j) = None"
    proof -
      fix srcs show "scan_sources srcs = None \<Longrightarrow> \<forall>j<length srcs. source_date (srcs ! j) = None"
        by (induction srcs) (auto simp: nth_Cons split: option.splits nat.splits)
    qed
    from this[OF n] assms(1) d show False by (simp add: length_date_sources)
  qed
  with same show ?thesis by (auto simp: extract_date_def split: option.splits)
qed

theorem normalized_source_hides_later_sources_witness:
  "(0::nat) < 3 \<and>
   take (Suc 0) (date_sources doc_modified_and_published) =
     take (Suc 0) (date_sources doc_modified_and_time) \<and>
   source_date (date_sources doc_modified_and_published ! 0) \<noteq> None \<and>
   extract_date doc_modified_and_published = extract_date doc_modified_and_time \<and>
   extract_date doc_modified_and_published \<noteq> None"
proof -
  have h1: "(0::nat) < 3" by simp
  have h2: "take (Suc 0) (date_sources doc_modified_and_published) =
     take (Suc 0) (date_sources doc_modified_and_time)" by code_simp
  have h3: "source_date (date_sources doc_modified_and_published ! 0) \<noteq> None" by code_simp
  from normalized_source_hides_later_sources [OF h1 h2 h3] h1 h2 h3 show ?thesis by blast
qed

text \<open>
  Claim C2 as written fails on two documents that carry the same \<open>article:modified_time\<close> tag
  with the value \<open>soon\<close>: the one that also has a \<open>published_time\<close> tag gets that tag's date,
  the other gets none. So the later source was consulted although the earlier tag exists.
\<close>

theorem first_present_tag_counterexample:
  "soup_find doc_modified_only (meta_property ''article:modified_time'') \<noteq> None \<and>
   soup_find doc_modified_unparseable (meta_property ''article:modified_time'') =
     soup_find doc_modified_only (meta_property ''article:modified_time'') \<and>
   extract_date doc_modified_only = None \<and>
   extract_date doc_modified_unparseable = Some ''2025-02-15''"
proof -
  have "soup_find doc_modified_only (meta_property ''article:modified_time'') \<noteq> None"
    by code_simp
  moreover have "soup_find doc_modified_unparseable (meta_property ''article:modified_time'') =
     soup_find doc_modified_only (meta_property ''article:modified_time'')"
    by code_simp
  moreover have "extract_date doc_modified_only = None" by code_simp
  moreover have "extract_date doc_modified_unparseable = Some ''2025-02-15''" by code_simp
  ultimately show ?thesis by blast
qed

text \<open>
  Claim C3 says that a document with only a post-header block reading
  "Updated: 5 March 2024" is dated 2024-03-05. The day-first pattern does find
  \<open>5 March 2024\<close> in the text, but \<open>parse_date_to_iso\<close> has no format for a day, a month name
  and a year separated by spaces, so the candidate reaches the year-only fallback: the code
  returns 2024-01-01.
\<close>

theorem post_header_day_month_year_gives_january_first:
  "extract_date doc_post_header = Some ''2024-01-01''"
  by code_simp

section \<open>The metadata record\<close>

text \<open>
  Claim C7 says that the extractor gives a record without error for every parsed document.
  For a document whose \<open>og:title\<close> tag has no \<open>content\<close> attribute the subscript raises
  \<open>KeyError\<close> inside the \<open>try\<close> block, and the record carries the error \<open>'content'\<close> with every
  field empty. The author is read with \<open>get\<close>, which gives \<open>None\<close> in the same situation.
\<close>

theorem og_title_without_content_gives_error:
  "extract_metadata_from_url (\<lambda>u. Inr doc_title_without_content) ''http://example.org/'' =
     \<lparr>md_url = ''http://example.org/'', md_og_title = None, md_author = None,
      md_article_date = None, md_error = Some ([CHR 0x27] @ ''content'' @ [CHR 0x27])\<rparr>"
  by (simp add: extract_metadata_from_url_def doc_title_without_content_def soup_find_def
      meta_property_def get_def getitem_def failure_def)

text \<open>
  Claim C8. In every record the function returns, a present error means that title, author
  and date are all absent; so a record with any of the three present has no error.
\<close>

theorem error_excludes_content:
  "(md_error (extract_metadata_from_url fetch u) \<noteq> None \<longrightarrow>
      md_og_title (extract_metadata_from_url fetch u) = None \<and>
      md_author (extract_metadata_from_url fetch u) = None \<and>
      md_article_date (extract_metadata_from_url fetch u) = None) \<and>
   (md_og_title (extract_metadata_from_url fetch u) \<noteq> None \<or>
    md_author (extract_metadata_from_url fetch u) \<noteq> None \<or>
    md_article_date (extract_metadata_from_url fetch u) \<noteq> None \<longrightarrow>
      md_error (extract_metadata_from_url fetch u) = None)"
  by (auto simp: extract_metadata_from_url_def failure_def split: sum.splits)

theorem error_excludes_content_witness:
  "md_error (extract_metadata_from_url (\<lambda>u. Inl ''timed out'') ''http://example.org/'') \<noteq> None \<and>
   md_og_title (extract_metadata_from_url (\<lambda>u. Inl ''timed out'') ''http://example.org/'') = None \<and>
   md_author (extract_metadata_from_url (\<lambda>u. Inl ''timed out'') ''http://example.org/'') = None \<and>
   md_article_date (extract_metadata_from_url (\<lambda>u. Inl ''timed out'') ''http://example.org/'') = None \<and>
   md_og_title (extract_metadata_from_url (\<lambda>u. Inr doc_title_only) ''http://example.org/'') \<noteq> None \<and>
   md_error (extract_metadata_from_url (\<lambda>u. Inr doc_title_only) ''http://example.org/'') = None"
proof -
  let ?r1 = "extract_metadata_from_url (\<lambda>u. Inl ''timed out'') ''http://example.org/''"
  let ?r2 = "extract_metadata_from_url (\<lambda>u. Inr doc_title_only) ''http://example.org/''"
  have e: "md_error ?r1 \<noteq> None"
    by (simp add: extract_metadata_from_url_def failure_def)
  have t: "md_og_title ?r2 \<noteq> None"
    by (simp add: extract_metadata_from_url_def doc_title_only_def soup_find_def
      meta_property_def get_def getitem_def)
  have c1: "md_og_title ?r1 = None \<and> md_author ?r1 = None \<and> md_article_date ?r1 = None"
    using error_excludes_content [of "\<lambda>u. Inl ''timed out''" "''http://example.org/''"] e
    by (elim conjE) (erule mp)
  have c2: "md_error ?r2 = None"
    using error_excludes_content [of "\<lambda>u. Inr doc_title_only" "''http://example.org/''"] t
    by (elim conjE) (erule mp, rule disjI1)
  from e t c1 c2 show ?thesis by (intro conjI) (elim conjE, assumption)+
qed

text \<open>
  Claim C10. The author is the \<open>content\<close> attribute of the first author tag present in the
  document, in the order \<open>name=author\<close>, \<open>article:author\<close>, \<open>og:author\<close>: when that tag has no
  \<open>content\<close> attribute the author is absent, whatever later tags of the chain carry.
\<close>

theorem author_commits_to_first_present_tag:
  assumes "fetch u = Inr soup"
    and "md_error (extract_metadata_from_url fetch u) = None"
    and "soup_find soup (meta_name ''author'') = Some e \<or>
         soup_find soup (meta_name ''author'') = None \<and>
           soup_find soup (meta_property ''article:author'') = Some e \<or>
         soup_find soup (meta_name ''author'') = None \<and>
           soup_find soup (meta_property ''article:author'') = None \<and>
           soup_find soup (meta_property ''og:author'') = Some e"
  shows "md_author (extract_metadata_from_url fetch u) = get e ''content''"
  using assms
  by (auto simp: extract_metadata_from_url_def failure_def find_author_meta_def py_or_def
      split: sum.splits option.splits)

theorem author_commits_to_first_present_tag_witness:
  "soup_find doc_author_without_content (meta_name ''author'') =
     Some \<lparr>el_name = ''meta'', el_attrs = [(''name'', ''author'')], el_class = [], el_text = []\<rparr> \<and>
   get \<lparr>el_name = ''meta'', el_attrs = [(''name'', ''author'')], el_class = [], el_text = []\<rparr>
     ''content'' = None \<and>
   soup_find doc_author_without_content (meta_property ''og:author'') =
     Some \<lparr>el_name = ''meta'', el_attrs = [(''property'', ''og:author''), (''content'', ''Ada'')],
            el_class = [], el_text = []\<rparr> \<and>
   md_error (extract_metadata_from_url (\<lambda>u. Inr doc_author_without_content) ''http://example.org/'') = None \<and>
   md_author (extract_metadata_from_url (\<lambda>u. Inr doc_author_without_content) ''http://example.org/'') = None"
proof -
  let ?e = "\<lparr>el_name = ''meta'', el_attrs = [(''name'', ''author'')], el_class = [], el_text = []\<rparr>"
  let ?fetch = "\<lambda>u::string. (Inr doc_author_without_content :: string + document)"
  have f: "?fetch ''http://example.org/'' = Inr doc_author_without_content" by simp
  have a: "soup_find doc_author_without_content (meta_name ''author'') = Some ?e"
    by (simp add: doc_author_without_content_def soup_find_def meta_name_def get_def)
  have c: "get ?e ''content'' = None" by (simp add: get_def)
  have o: "soup_find doc_author_without_content (meta_property ''og:author'') =
     Some \<lparr>el_name = ''meta'', el_attrs = [(''property'', ''og:author''), (''content'', ''Ada'')],
            el_class = [], el_text = []\<rparr>"
    by (simp add: doc_author_without_content_def soup_find_def meta_property_def get_def)
  have n: "md_error (extract_metadata_from_url ?fetch ''http://example.org/'') = None"
    by (simp add: extract_metadata_from_url_def doc_author_without_content_def soup_find_def
      meta_property_def get_def split: sum.splits)
  have "md_author (extract_metadata_from_url ?fetch ''http://example.org/'') = get ?e ''content''"
    using author_commits_to_first_present_tag [OF f n, of ?e] a by blast
  with a c o n show ?thesis by simp
qed

section \<open>The date normalizer\<close>

text \<open>
  Claim C6, as amended. The function has one failure value, \<open>None\<close>, and no failure kinds.
  It fails on a null input and on an empty input, and on a non-empty input exactly when no
  format parses it, no year-month-day triple is found in it and no four digits stand in a
  row in it.
\<close>

theorem normalize_fails_with_one_value:
  "parse_date_to_iso None = None \<and>
   parse_date_to_iso (Some []) = None \<and>
   (parse_date_to_iso (Some s) = None \<longleftrightarrow>
      s = [] \<or> (try_patterns s patterns = None \<and> re_search ymd_re s = None \<and>
                 re_search year_re s = None))"
  by (auto simp: parse_date_to_iso_def split: option.splits)

theorem normalize_fails_with_one_value_witness:
  "try_patterns ''no date info'' patterns = None \<and>
   re_search ymd_re ''no date info'' = None \<and>
   re_search year_re ''no date info'' = None \<and>
   parse_date_to_iso (Some ''no date info'') = None \<and>
   parse_date_to_iso (Some []) = None"
proof -
  have t: "try_patterns ''no date info'' patterns = None" by code_simp
  have y: "re_search ymd_re ''no date info'' = None" by code_simp
  have f: "re_search year_re ''no date info'' = None" by code_simp
  have "parse_date_to_iso (Some ''no date info'') = None"
    using normalize_fails_with_one_value [of "''no date info''"] t y f by simp
  moreover have "parse_date_to_iso (Some []) = None"
    using normalize_fails_with_one_value [of "''no date info''"] by simp
  ultimately show ?thesis using t y f by simp
qed

text \<open>
  Claim C6 as written wants the failure on the empty string and the failure on
  \<open>no date info\<close> to be distinguishable: they are the same value.
\<close>

theorem failure_kinds_counterexample:
  "parse_date_to_iso (Some '''') = parse_date_to_iso (Some ''no date info'')"
proof -
  have "parse_date_to_iso (Some '''') = None" by (simp add: parse_date_to_iso_def)
  moreover have "parse_date_to_iso (Some ''no date info'') = None" by code_simp
  ultimately show ?thesis by simp
qed

lemma rx_rep_exact_digits:
  "rx_rep n n rx_digit (p, s, g) =
     (if n \<le> length s \<and> list_all is_digit (take n s)
      then [(if n = 0 then p else Some (s ! (n - 1)), drop n s, g)] else [])"
proof (induction n arbitrary: p s)
  case 0
  then show ?case by simp
next
  case (Suc n)
  show ?case
  proof (cases s)
    case Nil
    then show ?thesis by (simp add: rx_digit_def)
  next
    case (Cons c cs)
    have "rx_rep (Suc n) (Suc n) rx_digit (p, c # cs, g) =
          (if is_digit c then rx_rep n n rx_digit (Some c, cs, g) else [])"
      by (simp add: rx_digit_def)
    also have "\<dots> = (if is_digit c then
                        (if n \<le> length cs \<and> list_all is_digit (take n cs)
                         then [(if n = 0 then Some c else Some (cs ! (n - 1)), drop n cs, g)]
                         else [])
                      else [])"
      by (simp only: Suc.IH)
    also have "\<dots> = (if Suc n \<le> length (c # cs) \<and> list_all is_digit (take (Suc n) (c # cs))
                      then [(Some ((c # cs) ! n), drop (Suc n) (c # cs), g)] else [])"
      by (cases n) auto
    finally show ?thesis using Cons by simp
  qed
qed

lemma year_re_result:
  "year_re (p, s, []) =
     (if 4 \<le> length s \<and> list_all is_digit (take 4 s)
      then [(Some (s ! 3), drop 4 s, [(CHR ''1'', take 4 s)])] else [])"
  by (simp add: year_re_def rx_group_def rx_rep_exact_digits)

lemma search_year_re:
  "search_from year_re p s = map_option (\<lambda>y. (y, [(CHR ''1'', y)])) (first_four_digits s)"
proof (induction s arbitrary: p)
  case Nil
  then show ?case by (simp add: year_re_result)
next
  case (Cons c cs)
  show ?case
  proof (cases "4 \<le> length (c # cs) \<and> list_all is_digit (take 4 (c # cs))")
    case True
    then have "year_re (p, c # cs, []) =
       [(Some ((c # cs) ! 3), drop 4 (c # cs), [(CHR ''1'', take 4 (c # cs))])]"
      unfolding year_re_result by (rule if_P)
    with True show ?thesis by (simp add: matched_def min_def)
  next
    case False
    then have a: "year_re (p, c # cs, []) = []"
      unfolding year_re_result by (rule if_not_P)
    from False have b: "first_four_digits (c # cs) = first_four_digits cs"
      unfolding first_four_digits.simps by (rule if_not_P)
    show ?thesis unfolding b by (simp add: a Cons.IH)
  qed
qed

text \<open>
  Claim C4, as amended. When the input is not empty, no format parses it and no
  year-month-day triple is found in it, the result is the leftmost four consecutive digits
  of the input followed by \<open>-01-01\<close>, and a failure when the input has no four consecutive
  digits. The four digits may be the start of a longer run of digits.
\<close>

theorem year_only_fallback_takes_first_four_digits:
  assumes "s \<noteq> []"
    and "try_patterns s patterns = None"
    and "re_search ymd_re s = None"
  shows "parse_date_to_iso (Some s) = map_option (\<lambda>y. y @ ''-01-01'') (first_four_digits s)"
  using assms
  by (cases "first_four_digits s")
     (simp_all add: parse_date_to_iso_def re_search_def search_year_re group_def)

theorem year_only_fallback_takes_first_four_digits_witness:
  "''Published sometime in 2019, details TBD'' \<noteq> [] \<and>
   try_patterns ''Published sometime in 2019, details TBD'' patterns = None \<and>
   re_search ymd_re ''Published sometime in 2019, details TBD'' = None \<and>
   first_four_digits ''Published sometime in 2019, details TBD'' = Some ''2019'' \<and>
   parse_date_to_iso (Some ''Published sometime in 2019, details TBD'') = Some ''2019-01-01''"
proof -
  let ?s = "''Published sometime in 2019, details TBD''"
  have n: "?s \<noteq> []" by simp
  have t: "try_patterns ?s patterns = None" by code_simp
  have y: "re_search ymd_re ?s = None" by code_simp
  have f: "first_four_digits ?s = Some ''2019''" by code_simp
  have "parse_date_to_iso (Some ?s) = Some ''2019-01-01''"
    using year_only_fallback_takes_first_four_digits [OF n t y] f by simp
  with n t y f show ?thesis by simp
qed

text \<open>
  Claim C4 as written wants a run of exactly four digits: the input \<open>12345\<close> has none, no
  format parses it and it holds no triple, and the code still returns the year 1234.
\<close>

theorem longer_digit_run_counterexample:
  "try_patterns ''12345'' patterns = None \<and>
   re_search ymd_re ''12345'' = None \<and>
   parse_date_to_iso (Some ''12345'') = Some ''1234-01-01''"
proof -
  have "try_patterns ''12345'' patterns = None" by code_simp
  moreover have "re_search ymd_re ''12345'' = None" by code_simp
  moreover have "parse_date_to_iso (Some ''12345'') = Some ''1234-01-01''" by code_simp
  ultimately show ?thesis by simp
qed

subsection \<open>The order of the slash formats\<close>

lemma is_digit_cases:
  assumes "is_digit c"
  obtains "c = CHR ''0''" | "c = CHR ''1''" | "c = CHR ''2''" | "c = CHR ''3''" | "c = CHR ''4''"
    | "c = CHR ''5''" | "c = CHR ''6''" | "c = CHR ''7''" | "c = CHR ''8''" | "c = CHR ''9''"
  using assms by (auto simp: is_digit_def)

lemma digit_not_space: "is_digit c \<Longrightarrow> \<not> is_space c"
  by (erule is_digit_cases) (simp_all add: is_space_def)

lemma pattern_us: "pattern ''%m/%d/%Y'' =
  Some [rx_group (CHR ''m'') re_m, rx_lit_ci (CHR ''/''), rx_group (CHR ''d'') re_d,
        rx_lit_ci (CHR ''/''), rx_group (CHR ''Y'') re_Y]"
  by (simp add: time_re_def is_space_def)

lemma pattern_iso: "pattern ''%Y-%m-%d'' =
  Some [rx_group (CHR ''Y'') re_Y, rx_lit_ci (CHR ''-''), rx_group (CHR ''m'') re_m,
        rx_lit_ci (CHR ''-''), rx_group (CHR ''d'') re_d]"
  by (simp add: time_re_def is_space_def)

lemma pattern_b: "pattern ''%b %d, %Y'' =
  Some [rx_group (CHR ''b'') (seqToRE (tl a_month)), rx_plus (rx_chr is_space),
        rx_group (CHR ''d'') re_d, rx_lit_ci (CHR '',''), rx_plus (rx_chr is_space),
        rx_group (CHR ''Y'') re_Y]"
  by (simp add: time_re_def is_space_def)

lemma re_m_two:
  "re_m (p, a # b # r, g) =
     (if a = CHR ''1'' \<and> b \<in> set ''012'' then [(Some b, r, g)] else []) @
     (if a = CHR ''0'' \<and> b \<in> set ''123456789'' then [(Some b, r, g)] else []) @
     (if a \<in> set ''123456789'' then [(Some a, b # r, g)] else [])"
  by (simp add: re_m_def rx_lit_def rx_in_def nonzero_digit_def)

lemma lower_char_range: "lower_char x = c \<Longrightarrow> (of_char c :: nat) < 65 \<Longrightarrow> x = c"
proof -
  assume eq: "lower_char x = c" and lt: "(of_char c :: nat) < 65"
  show "x = c"
  proof (cases "map_of (zip ''ABCDEFGHIJKLMNOPQRSTUVWXYZ'' ''abcdefghijklmnopqrstuvwxyz'') x")
    case (Some l)
    then have "l \<in> set ''abcdefghijklmnopqrstuvwxyz''"
      by (meson map_of_SomeD set_zip_rightD)
    moreover from Some eq have "l = c" by (simp add: lower_char_def)
    ultimately show ?thesis using lt by auto
  next
    case None
    show ?thesis
    proof (cases "192 \<le> (of_char x :: nat) \<and> (of_char x :: nat) \<le> 222 \<and> (of_char x :: nat) \<noteq> 215")
      case True
      with None eq have "char_of ((of_char x :: nat) + 32) = c"
        by (simp add: lower_char_def Let_def)
      then have "(of_char c :: nat) = ((of_char x :: nat) + 32) mod 256"
        by (metis of_char_of)
      with True lt show ?thesis by simp
    next
      case False
      with None eq show ?thesis by (simp add: lower_char_def Let_def)
    qed
  qed
qed

lemma lit_ci_slash:
  "rx_lit_ci (CHR ''/'') (p, x # r, g) = (if x = CHR ''/'' then [(Some x, r, g)] else [])"
proof -
  have l: "lower_char (CHR ''/'') = CHR ''/''" by (simp add: lower_char_def)
  have "lower_char x = CHR ''/'' \<longleftrightarrow> x = CHR ''/''"
    using lower_char_range [of x "CHR ''/''"] l by auto
  then show ?thesis by (simp add: rx_lit_ci_def l)
qed

lemma lit_ci_dash:
  "rx_lit_ci (CHR ''-'') (p, x # r, g) = (if x = CHR ''-'' then [(Some x, r, g)] else [])"
proof -
  have l: "lower_char (CHR ''-'') = CHR ''-''" by (simp add: lower_char_def)
  have "lower_char x = CHR ''-'' \<longleftrightarrow> x = CHR ''-''"
    using lower_char_range [of x "CHR ''-''"] l by auto
  then show ?thesis by (simp add: rx_lit_ci_def l)
qed

lemma lit_ci_Nil: "rx_lit_ci c (p, [], g) = []"
  by (simp add: rx_lit_ci_def)

lemma pattern_iso_time_z: "pattern ''%Y-%m-%dT%H:%M:%S%z'' =
  Some [rx_group (CHR ''Y'') re_Y, rx_lit_ci (CHR ''-''), rx_group (CHR ''m'') re_m,
        rx_lit_ci (CHR ''-''), rx_group (CHR ''d'') re_d, rx_lit_ci (CHR ''T''),
        rx_group (CHR ''H'') re_H, rx_lit_ci (CHR '':''), rx_group (CHR ''M'') re_M,
        rx_lit_ci (CHR '':''), rx_group (CHR ''S'') re_S, rx_group (CHR ''z'') re_z]"
  by (simp add: time_re_def is_space_def)

lemma pattern_iso_time: "pattern ''%Y-%m-%dT%H:%M:%S'' =
  Some [rx_group (CHR ''Y'') re_Y, rx_lit_ci (CHR ''-''), rx_group (CHR ''m'') re_m,
        rx_lit_ci (CHR ''-''), rx_group (CHR ''d'') re_d, rx_lit_ci (CHR ''T''),
        rx_group (CHR ''H'') re_H, rx_lit_ci (CHR '':''), rx_group (CHR ''M'') re_M,
        rx_lit_ci (CHR '':''), rx_group (CHR ''S'') re_S]"
  by (simp add: time_re_def is_space_def)

lemma pattern_B: "pattern ''%B %d, %Y'' =
  Some [rx_group (CHR ''B'') (seqToRE (tl f_month)), rx_plus (rx_chr is_space),
        rx_group (CHR ''d'') re_d, rx_lit_ci (CHR '',''), rx_plus (rx_chr is_space),
        rx_group (CHR ''Y'') re_Y]"
  by (simp add: time_re_def is_space_def)

lemma re_m_Nil: "re_m (p, [], g) = []"
  by (simp add: re_m_def rx_lit_def rx_in_def nonzero_digit_def)

lemma re_m_one: "re_m (p, [a], g) = (if a \<in> set ''123456789'' then [(Some a, [], g)] else [])"
  by (simp add: re_m_def rx_lit_def rx_in_def nonzero_digit_def)

lemma month_then_slash_shape:
  assumes "rx_seqs (rx_group k re_m # rx_lit_ci (CHR ''/'') # rs) (p, t, g) \<noteq> []"
  shows "\<exists>a r. is_digit a \<and> (t = a # CHR ''/'' # r \<or> (\<exists>b. t = a # b # CHR ''/'' # r))"
proof (cases t)
  case Nil
  with assms show ?thesis by (simp add: rx_group_def re_m_Nil)
next
  case (Cons a t1)
  show ?thesis
  proof (cases t1)
    case Nil
    with Cons assms show ?thesis
      by (simp add: rx_group_def re_m_one lit_ci_Nil split: if_splits)
  next
    case t1: (Cons b t2)
    show ?thesis
    proof (cases t2)
      case Nil
      with Cons t1 assms show ?thesis
        by (auto simp: rx_group_def re_m_two lit_ci_Nil lit_ci_slash is_digit_def
            split: if_splits)
    next
      case (Cons c t3)
      with \<open>t = a # t1\<close> t1 assms show ?thesis
        by (auto simp: rx_group_def re_m_two lit_ci_slash is_digit_def split: if_splits)
    qed
  qed
qed

lemma year_fails_before_slash:
  assumes "t = a # CHR ''/'' # r \<or> t = a # b # CHR ''/'' # r"
  shows "rx_seqs (rx_group k re_Y # rs) (p, t, g) = []"
  using assms by (auto simp: rx_group_def re_Y_def rx_digit_def is_digit_def)

lemma a_month_fails_on_digit:
  "is_digit a \<Longrightarrow> seqToRE (tl a_month) (p, a # r, g) = []"
  by (erule is_digit_cases)
     (simp_all add: seqToRE_def a_month_def rx_str_ci_def rx_lit_ci_def lower_char_def)

lemma f_month_fails_on_digit:
  "is_digit a \<Longrightarrow> seqToRE (tl f_month) (p, a # r, g) = []"
  by (erule is_digit_cases)
     (simp_all add: seqToRE_def f_month_def rx_str_ci_def rx_lit_ci_def lower_char_def)

declare pattern.simps [simp del]

lemma strptime_Some_match:
  "strptime t f = Some dt \<Longrightarrow> pattern f = Some rs \<Longrightarrow> rx_seqs rs (None, t, []) \<noteq> []"
  by (auto simp: strptime_def)

lemma strptime_Nil: "strptime [] ''%m/%d/%Y'' = None"
  by (simp add: strptime_def pattern_us rx_group_def re_m_Nil)

lemma a_month_group_fails:
  "is_digit a \<Longrightarrow> rx_seqs (rx_group k (seqToRE (tl a_month)) # rs) (p, a # r, g) = []"
  by (simp add: rx_group_def a_month_fails_on_digit)

lemma f_month_group_fails:
  "is_digit a \<Longrightarrow> rx_seqs (rx_group k (seqToRE (tl f_month)) # rs) (p, a # r, g) = []"
  by (simp add: rx_group_def f_month_fails_on_digit)

lemma formats_before_us_fail:
  assumes "strptime t ''%m/%d/%Y'' = Some us"
  shows "strptime t ''%Y-%m-%d'' = None"
    and "strptime t ''%Y-%m-%dT%H:%M:%S%z'' = None"
    and "strptime t ''%Y-%m-%dT%H:%M:%S'' = None"
    and "strptime t ''%b %d, %Y'' = None"
    and "strptime t ''%B %d, %Y'' = None"
proof -
  from assms have ne: "rx_seqs [rx_group (CHR ''m'') re_m, rx_lit_ci (CHR ''/''),
      rx_group (CHR ''d'') re_d, rx_lit_ci (CHR ''/''), rx_group (CHR ''Y'') re_Y]
      (None, t, []) \<noteq> []"
    by (rule strptime_Some_match) (rule pattern_us)
  from month_then_slash_shape [OF ne] obtain a r where a: "is_digit a"
    and t: "t = a # CHR ''/'' # r \<or> (\<exists>b. t = a # b # CHR ''/'' # r)"
    by (elim exE conjE)
  from t obtain b where t': "t = a # CHR ''/'' # r \<or> t = a # b # CHR ''/'' # r" by blast
  have y: "\<And>k rs. rx_seqs (rx_group k re_Y # rs) (None, t, []) = []"
    using t' by (rule year_fails_before_slash)
  from t obtain r' where r': "t = a # r'" by blast
  show "strptime t ''%Y-%m-%d'' = None"
    by (simp only: strptime_def pattern_iso option.case y list.case)
  show "strptime t ''%Y-%m-%dT%H:%M:%S%z'' = None"
    by (simp only: strptime_def pattern_iso_time_z option.case y list.case)
  show "strptime t ''%Y-%m-%dT%H:%M:%S'' = None"
    by (simp only: strptime_def pattern_iso_time option.case y list.case)
  show "strptime t ''%b %d, %Y'' = None"
    unfolding r' by (simp only: strptime_def pattern_b option.case a_month_group_fails [OF a] list.case)
  show "strptime t ''%B %d, %Y'' = None"
    unfolding r' by (simp only: strptime_def pattern_B option.case f_month_group_fails [OF a] list.case)
qed

text \<open>
  Claim C5. The format list has \<open>%m/%d/%Y\<close> before \<open>%d/%m/%Y\<close>, and no earlier format
  parses a string that \<open>%m/%d/%Y\<close> parses. So for every input that both slash formats
  parse, the result is the reading of the first, month before day: \<open>03/04/2025\<close> gives
  2025-03-04.
\<close>

theorem us_order_wins:
  assumes "strptime (strip s) ''%m/%d/%Y'' = Some us"
    and "strptime (strip s) ''%d/%m/%Y'' = Some eu"
  shows "parse_date_to_iso (Some s) = Some (strftime_ymd us)"
proof -
  have "s \<noteq> []"
  proof
    assume "s = []"
    then have "strip s = []" by (simp add: strip_def)
    with assms(1) show False by (simp add: strptime_Nil)
  qed
  moreover have "try_patterns s patterns = Some (strftime_ymd us)"
    by (simp only: patterns_def try_patterns.simps try_group.simps
        formats_before_us_fail [OF assms(1)] assms(1) option.case)
  ultimately show ?thesis by (simp add: parse_date_to_iso_def)
qed

theorem us_order_wins_witness:
  "strptime (strip ''03/04/2025'') ''%m/%d/%Y'' =
     Some \<lparr>dt_year = 2025, dt_month = 3, dt_day = 4, dt_hour = 0, dt_minute = 0, dt_second = 0\<rparr> \<and>
   strptime (strip ''03/04/2025'') ''%d/%m/%Y'' =
     Some \<lparr>dt_year = 2025, dt_month = 4, dt_day = 3, dt_hour = 0, dt_minute = 0, dt_second = 0\<rparr> \<and>
   parse_date_to_iso (Some ''03/04/2025'') = Some ''2025-03-04''"
proof -
  let ?us = "\<lparr>dt_year = 2025, dt_month = 3, dt_day = 4, dt_hour = 0, dt_minute = 0, dt_second = 0\<rparr>"
  let ?eu = "\<lparr>dt_year = 2025, dt_month = 4, dt_day = 3, dt_hour = 0, dt_minute = 0, dt_second = 0\<rparr>"
  have u: "strptime (strip ''03/04/2025'') ''%m/%d/%Y'' = Some ?us" by code_simp
  have e: "strptime (strip ''03/04/2025'') ''%d/%m/%Y'' = Some ?eu" by code_simp
  have f: "strftime_ymd ?us = ''2025-03-04''" by code_simp
  from us_order_wins [OF u e] f have "parse_date_to_iso (Some ''03/04/2025'') = Some ''2025-03-04''"
    by simp
  with u e show ?thesis by simp
qed

subsection \<open>Input that is already year, month, day\<close>

lemma digit_val_less: "is_digit c \<Longrightarrow> digit_val c < 10"
  by (erule is_digit_cases) (simp_all add: digit_val_def)

lemma digit_char_val: "is_digit c \<Longrightarrow> digit_char (digit_val c) = c"
  by (erule is_digit_cases) (simp_all add: digit_val_def digit_char_def)

lemma py_int_two:
  "is_digit a \<Longrightarrow> is_digit b \<Longrightarrow> py_int [a, b] = Some (10 * digit_val a + digit_val b)"
  by (simp add: py_int_def strip_def digit_not_space)

lemma py_int_four:
  "is_digit a \<Longrightarrow> is_digit b \<Longrightarrow> is_digit c \<Longrightarrow> is_digit d \<Longrightarrow>
   py_int [a, b, c, d] =
     Some (10 * (10 * (10 * digit_val a + digit_val b) + digit_val c) + digit_val d)"
  by (simp add: py_int_def strip_def digit_not_space)

lemma pad2_digits:
  assumes "is_digit a" "is_digit b"
  shows "pad2 (10 * digit_val a + digit_val b) = [a, b]"
proof -
  have a: "digit_val a < 10" and b: "digit_val b < 10"
    using assms by (simp_all add: digit_val_less)
  have "(10 * digit_val a + digit_val b) div 10 mod 10 = digit_val a"
    using a b by simp
  moreover have "(10 * digit_val a + digit_val b) mod 10 = digit_val b"
    using b by simp
  ultimately have "pad2 (10 * digit_val a + digit_val b) =
      [digit_char (digit_val a), digit_char (digit_val b)]"
    by (simp add: pad2_def digit_char_def)
  then show ?thesis using assms by (simp add: digit_char_val)
qed

lemma div_mod_ten:
  fixes k x :: nat
  assumes "x < 10"
  shows "(10 * k + x) div 10 = k" and "(10 * k + x) mod 10 = x"
  using assms by simp_all

lemma decimal_four:
  fixes a b c d :: nat
  assumes "a < 10" "b < 10" "c < 10" "d < 10"
  defines "n \<equiv> 10 * (10 * (10 * a + b) + c) + d"
  shows "n div 1000 mod 10 = a" and "n div 100 mod 10 = b"
    and "n div 10 mod 10 = c" and "n mod 10 = d"
proof -
  have d1: "n div 10 = 10 * (10 * a + b) + c"
    unfolding n_def using assms(4) by (rule div_mod_ten(1))
  have "n div 100 = n div 10 div 10"
    by (simp add: div_mult2_eq)
  also have "\<dots> = 10 * a + b"
    unfolding d1 using assms(3) by (rule div_mod_ten(1))
  finally have d2: "n div 100 = 10 * a + b" .
  have "n div 1000 = n div 100 div 10"
    by (simp add: div_mult2_eq)
  also have "\<dots> = a"
    unfolding d2 using assms(2) by (rule div_mod_ten(1))
  finally have d3: "n div 1000 = a" .
  show "n div 1000 mod 10 = a" unfolding d3 using assms(1) by (rule mod_less)
  show "n div 100 mod 10 = b" unfolding d2 using assms(2) by (rule div_mod_ten(2))
  show "n div 10 mod 10 = c" unfolding d1 using assms(3) by (rule div_mod_ten(2))
  show "n mod 10 = d" unfolding n_def using assms(4) by (rule div_mod_ten(2))
qed

lemma digit_char_mod: "digit_char k = digit_char (k mod 10)"
  by (simp add: digit_char_def)

lemma pad4_digits:
  assumes "is_digit a" "is_digit b" "is_digit c" "is_digit d"
  shows "pad4 (10 * (10 * (10 * digit_val a + digit_val b) + digit_val c) + digit_val d) =
         [a, b, c, d]"
proof -
  let ?n = "10 * (10 * (10 * digit_val a + digit_val b) + digit_val c) + digit_val d"
  have a: "digit_val a < 10" and b: "digit_val b < 10"
    and c: "digit_val c < 10" and d: "digit_val d < 10"
    using assms by (simp_all add: digit_val_less)
  have "digit_char (?n div 1000) = digit_char (?n div 1000 mod 10)" by (rule digit_char_mod)
  also have "\<dots> = a" by (simp only: decimal_four(1) [OF a b c d] digit_char_val [OF assms(1)])
  finally have h1: "digit_char (?n div 1000) = a" .
  have "digit_char (?n div 100) = digit_char (?n div 100 mod 10)" by (rule digit_char_mod)
  also have "\<dots> = b" by (simp only: decimal_four(2) [OF a b c d] digit_char_val [OF assms(2)])
  finally have h2: "digit_char (?n div 100) = b" .
  have "digit_char (?n div 10) = digit_char (?n div 10 mod 10)" by (rule digit_char_mod)
  also have "\<dots> = c" by (simp only: decimal_four(3) [OF a b c d] digit_char_val [OF assms(3)])
  finally have h3: "digit_char (?n div 10) = c" .
  have "digit_char ?n = digit_char (?n mod 10)" by (rule digit_char_mod)
  also have "\<dots> = d" by (simp only: decimal_four(4) [OF a b c d] digit_char_val [OF assms(4)])
  finally have h4: "digit_char ?n = d" .
  show ?thesis unfolding pad4_def by (simp only: h1 h2 h3 h4)
qed

lemma pattern_eu: "pattern ''%d/%m/%Y'' =
  Some [rx_group (CHR ''d'') re_d, rx_lit_ci (CHR ''/''), rx_group (CHR ''m'') re_m,
        rx_lit_ci (CHR ''/''), rx_group (CHR ''Y'') re_Y]"
  by (simp add: pattern.simps time_re_def is_space_def)

lemma pattern_ymd_slash: "pattern ''%Y/%m/%d'' =
  Some [rx_group (CHR ''Y'') re_Y, rx_lit_ci (CHR ''/''), rx_group (CHR ''m'') re_m,
        rx_lit_ci (CHR ''/''), rx_group (CHR ''d'') re_d]"
  by (simp add: pattern.simps time_re_def is_space_def)

lemma pattern_dby: "pattern ''%d-%b-%y'' =
  Some [rx_group (CHR ''d'') re_d, rx_lit_ci (CHR ''-''),
        rx_group (CHR ''b'') (seqToRE (tl a_month)), rx_lit_ci (CHR ''-''),
        rx_group (CHR ''y'') re_y]"
  by (simp add: pattern.simps time_re_def is_space_def)

lemma pattern_dBY: "pattern ''%d-%B-%Y'' =
  Some [rx_group (CHR ''d'') re_d, rx_lit_ci (CHR ''-''),
        rx_group (CHR ''B'') (seqToRE (tl f_month)), rx_lit_ci (CHR ''-''),
        rx_group (CHR ''Y'') re_Y]"
  by (simp add: pattern.simps time_re_def is_space_def)

lemma re_d_Nil: "re_d (p, [], g) = []"
  by (simp add: re_d_def rx_lit_def rx_in_def rx_digit_def nonzero_digit_def)

lemma re_d_one: "re_d (p, [a], g) = (if a \<in> set ''123456789'' then [(Some a, [], g)] else [])"
  by (simp add: re_d_def rx_lit_def rx_in_def rx_digit_def nonzero_digit_def)

lemma re_d_two:
  "re_d (p, a # b # r, g) =
     (if a = CHR ''3'' \<and> b \<in> set ''01'' then [(Some b, r, g)] else []) @
     (if a \<in> set ''12'' \<and> is_digit b then [(Some b, r, g)] else []) @
     (if a = CHR ''0'' \<and> b \<in> set ''123456789'' then [(Some b, r, g)] else []) @
     (if a \<in> set ''123456789'' then [(Some a, b # r, g)] else []) @
     (if a = CHR '' '' \<and> b \<in> set ''123456789'' then [(Some b, r, g)] else [])"
  by (simp add: re_d_def rx_lit_def rx_in_def rx_digit_def nonzero_digit_def)

lemma re_Y_result:
  "re_Y (p, s, g) =
     (case s of
        a # b # c # d # r \<Rightarrow>
          if is_digit a \<and> is_digit b \<and> is_digit c \<and> is_digit d then [(Some d, r, g)] else []
      | _ \<Rightarrow> [])"
  by (simp add: re_Y_def rx_digit_def split: list.splits)

lemma mem_group_Y:
  assumes "st \<in> set (rx_group k re_Y (p, s, g))"
  shows "\<exists>a b c d r. s = a # b # c # d # r \<and> st = (Some d, r, g @ [(k, [a, b, c, d])])"
  using assms by (auto simp: rx_group_def re_Y_result split: list.splits if_splits)

lemma mem_group_m:
  assumes "st \<in> set (rx_group k re_m (p, s, g))"
  shows "(\<exists>a r. s = a # r \<and> st = (Some a, r, g @ [(k, [a])])) \<or>
         (\<exists>a b r. s = a # b # r \<and> st = (Some b, r, g @ [(k, [a, b])]))"
proof (cases s)
  case Nil
  with assms show ?thesis by (simp add: rx_group_def re_m_Nil)
next
  case (Cons a s1)
  show ?thesis
  proof (cases s1)
    case Nil
    with Cons assms show ?thesis by (auto simp: rx_group_def re_m_one split: if_splits)
  next
    case s1: (Cons b r)
    with Cons assms show ?thesis by (auto simp: rx_group_def re_m_two split: if_splits)
  qed
qed

lemma mem_group_d:
  assumes "st \<in> set (rx_group k re_d (p, s, g))"
  shows "(\<exists>a r. s = a # r \<and> st = (Some a, r, g @ [(k, [a])])) \<or>
         (\<exists>a b r. s = a # b # r \<and> st = (Some b, r, g @ [(k, [a, b])]))"
proof (cases s)
  case Nil
  with assms show ?thesis by (simp add: rx_group_def re_d_Nil)
next
  case (Cons a s1)
  show ?thesis
  proof (cases s1)
    case Nil
    with Cons assms show ?thesis by (auto simp: rx_group_def re_d_one split: if_splits)
  next
    case s1: (Cons b r)
    with Cons assms show ?thesis by (auto simp: rx_group_def re_d_two split: if_splits)
  qed
qed

lemma mem_lit_sep:
  assumes "st \<in> set (rx_lit_ci c (p, s, g))" and "c = CHR ''-'' \<or> c = CHR ''/''"
  shows "\<exists>r. s = c # r \<and> st = (Some c, r, g)"
  using assms by (cases s) (auto simp: lit_ci_Nil lit_ci_dash lit_ci_slash split: if_splits)

lemma mem_lit_T:
  assumes "st \<in> set (rx_lit_ci (CHR ''T'') (p, s, g))"
  shows "\<exists>x r. s = x # r \<and> lower_char x = CHR ''t''"
proof -
  have "lower_char (CHR ''T'') = CHR ''t''" by (simp add: lower_char_def)
  with assms show ?thesis by (cases s) (auto simp: rx_lit_ci_def split: if_splits)
qed

lemma digit_not_sep: "is_digit c \<Longrightarrow> c \<noteq> CHR ''-'' \<and> c \<noteq> CHR ''/'' \<and> lower_char c \<noteq> CHR ''t''"
  by (erule is_digit_cases) (simp_all add: lower_char_def)

lemma empty_if_no_member: "(\<And>e. e \<in> set xs \<Longrightarrow> False) \<Longrightarrow> xs = []"
  by (cases xs) auto

lemma ymd_prefix:
  assumes dg: "is_digit y1" "is_digit y2" "is_digit y3" "is_digit y4" "is_digit m1" "is_digit m2"
    and c: "c = CHR ''-'' \<or> c = CHR ''/''"
    and 1: "st1 \<in> set (rx_group (CHR ''Y'') re_Y
                            (None, y1 # y2 # y3 # y4 # p # m1 # m2 # q # r, []))"
    and 2: "st2 \<in> set (rx_lit_ci c st1)"
    and 3: "st3 \<in> set (rx_group (CHR ''m'') re_m st2)"
    and 4: "st \<in> set (rx_lit_ci c st3)"
  shows "p = c \<and> q = c \<and>
         st = (Some c, r, [(CHR ''Y'', [y1, y2, y3, y4]), (CHR ''m'', [m1, m2])])"
proof -
  from mem_group_Y [OF 1]
  have st1: "st1 = (Some y4, p # m1 # m2 # q # r, [(CHR ''Y'', [y1, y2, y3, y4])])"
    by auto
  from mem_lit_sep [OF 2 [unfolded st1] c]
  have p: "p = c" and st2: "st2 = (Some c, m1 # m2 # q # r, [(CHR ''Y'', [y1, y2, y3, y4])])"
    by auto
  from mem_group_m [OF 3 [unfolded st2]]
  have "st3 = (Some m1, m2 # q # r, [(CHR ''Y'', [y1, y2, y3, y4]), (CHR ''m'', [m1])]) \<or>
        st3 = (Some m2, q # r, [(CHR ''Y'', [y1, y2, y3, y4]), (CHR ''m'', [m1, m2])])"
    by auto
  then show ?thesis
  proof
    assume s: "st3 = (Some m1, m2 # q # r, [(CHR ''Y'', [y1, y2, y3, y4]), (CHR ''m'', [m1])])"
    from mem_lit_sep [OF 4 [unfolded s] c] have "m2 = c" by auto
    with c digit_not_sep [OF dg(6)] show ?thesis by auto
  next
    assume s: "st3 = (Some m2, q # r, [(CHR ''Y'', [y1, y2, y3, y4]), (CHR ''m'', [m1, m2])])"
    from mem_lit_sep [OF 4 [unfolded s] c] p show ?thesis by auto
  qed
qed

lemma ymd_format_groups:
  assumes dg: "is_digit y1" "is_digit y2" "is_digit y3" "is_digit y4" "is_digit m1" "is_digit m2"
    and c: "c = CHR ''-'' \<or> c = CHR ''/''"
    and mem: "e \<in> set (rx_seqs [rx_group (CHR ''Y'') re_Y, rx_lit_ci c,
                                 rx_group (CHR ''m'') re_m, rx_lit_ci c,
                                 rx_group (CHR ''d'') re_d]
                          (None, [y1, y2, y3, y4, p, m1, m2, q, d1, d2], []))"
  shows "fst (snd e) \<noteq> [] \<or>
         snd (snd e) = [(CHR ''Y'', [y1, y2, y3, y4]), (CHR ''m'', [m1, m2]), (CHR ''d'', [d1, d2])]"
proof -
  from mem obtain st1 st2 st3 st
    where 1: "st1 \<in> set (rx_group (CHR ''Y'') re_Y
                            (None, [y1, y2, y3, y4, p, m1, m2, q, d1, d2], []))"
      and 2: "st2 \<in> set (rx_lit_ci c st1)"
      and 3: "st3 \<in> set (rx_group (CHR ''m'') re_m st2)"
      and 4: "st \<in> set (rx_lit_ci c st3)"
      and e: "e \<in> set (rx_group (CHR ''d'') re_d st)"
    by auto
  from ymd_prefix [OF dg c 1 2 3 4]
  have "st = (Some c, [d1, d2], [(CHR ''Y'', [y1, y2, y3, y4]), (CHR ''m'', [m1, m2])])"
    by simp
  from mem_group_d [OF e [unfolded this]] show ?thesis by auto
qed

lemma iso_time_format_fails:
  assumes dg: "is_digit y1" "is_digit y2" "is_digit y3" "is_digit y4" "is_digit m1" "is_digit m2"
    and d2: "is_digit d2"
  shows "rx_seqs (rx_group (CHR ''Y'') re_Y # rx_lit_ci (CHR ''-'') #
                  rx_group (CHR ''m'') re_m # rx_lit_ci (CHR ''-'') #
                  rx_group (CHR ''d'') re_d # rx_lit_ci (CHR ''T'') # rs)
                 (None, [y1, y2, y3, y4, p, m1, m2, q, d1, d2], []) = []"
proof (rule empty_if_no_member)
  fix e
  assume "e \<in> set (rx_seqs (rx_group (CHR ''Y'') re_Y # rx_lit_ci (CHR ''-'') #
                  rx_group (CHR ''m'') re_m # rx_lit_ci (CHR ''-'') #
                  rx_group (CHR ''d'') re_d # rx_lit_ci (CHR ''T'') # rs)
                 (None, [y1, y2, y3, y4, p, m1, m2, q, d1, d2], []))"
  then obtain st1 st2 st3 st st5 st6
    where 1: "st1 \<in> set (rx_group (CHR ''Y'') re_Y
                            (None, [y1, y2, y3, y4, p, m1, m2, q, d1, d2], []))"
      and 2: "st2 \<in> set (rx_lit_ci (CHR ''-'') st1)"
      and 3: "st3 \<in> set (rx_group (CHR ''m'') re_m st2)"
      and 4: "st \<in> set (rx_lit_ci (CHR ''-'') st3)"
      and 5: "st5 \<in> set (rx_group (CHR ''d'') re_d st)"
      and 6: "st6 \<in> set (rx_lit_ci (CHR ''T'') st5)"
    by auto
  from ymd_prefix [OF dg _ 1 2 3 4]
  have "st = (Some (CHR ''-''), [d1, d2], [(CHR ''Y'', [y1, y2, y3, y4]), (CHR ''m'', [m1, m2])])"
    by simp
  from mem_group_d [OF 5 [unfolded this]]
  have "(\<exists>g. st5 = (Some d1, [d2], g)) \<or> (\<exists>g. st5 = (Some d2, [], g))"
    by auto
  then show False
  proof
    assume "\<exists>g. st5 = (Some d1, [d2], g)"
    then obtain g where "st5 = (Some d1, [d2], g)" ..
    from mem_lit_T [OF 6 [unfolded this]] digit_not_sep [OF d2] show False by auto
  next
    assume "\<exists>g. st5 = (Some d2, [], g)"
    then obtain g where "st5 = (Some d2, [], g)" ..
    from mem_lit_T [OF 6 [unfolded this]] show False by auto
  qed
qed

lemma month_first_fails_on_digits:
  assumes "is_digit b" "is_digit c" and s: "s = CHR ''-'' \<or> s = CHR ''/''"
  shows "rx_seqs (rx_group k re_m # rx_lit_ci s # rs) (p, a # b # c # r, g) = []"
proof (rule empty_if_no_member)
  fix e
  assume "e \<in> set (rx_seqs (rx_group k re_m # rx_lit_ci s # rs) (p, a # b # c # r, g))"
  then obtain st1 st2
    where 1: "st1 \<in> set (rx_group k re_m (p, a # b # c # r, g))"
      and 2: "st2 \<in> set (rx_lit_ci s st1)"
    by auto
  from mem_group_m [OF 1]
  have "(\<exists>g'. st1 = (Some a, b # c # r, g')) \<or> (\<exists>g'. st1 = (Some b, c # r, g'))"
    by auto
  then show False
  proof
    assume "\<exists>g'. st1 = (Some a, b # c # r, g')"
    then obtain g' where "st1 = (Some a, b # c # r, g')" ..
    from mem_lit_sep [OF 2 [unfolded this] s] s digit_not_sep [OF assms(1)] show False by auto
  next
    assume "\<exists>g'. st1 = (Some b, c # r, g')"
    then obtain g' where "st1 = (Some b, c # r, g')" ..
    from mem_lit_sep [OF 2 [unfolded this] s] s digit_not_sep [OF assms(2)] show False by auto
  qed
qed

lemma day_first_fails_on_digits:
  assumes "is_digit b" "is_digit c" and s: "s = CHR ''-'' \<or> s = CHR ''/''"
  shows "rx_seqs (rx_group k re_d # rx_lit_ci s # rs) (p, a # b # c # r, g) = []"
proof (rule empty_if_no_member)
  fix e
  assume "e \<in> set (rx_seqs (rx_group k re_d # rx_lit_ci s # rs) (p, a # b # c # r, g))"
  then obtain st1 st2
    where 1: "st1 \<in> set (rx_group k re_d (p, a # b # c # r, g))"
      and 2: "st2 \<in> set (rx_lit_ci s st1)"
    by auto
  from mem_group_d [OF 1]
  have "(\<exists>g'. st1 = (Some a, b # c # r, g')) \<or> (\<exists>g'. st1 = (Some b, c # r, g'))"
    by auto
  then show False
  proof
    assume "\<exists>g'. st1 = (Some a, b # c # r, g')"
    then obtain g' where "st1 = (Some a, b # c # r, g')" ..
    from mem_lit_sep [OF 2 [unfolded this] s] s digit_not_sep [OF assms(1)] show False by auto
  next
    assume "\<exists>g'. st1 = (Some b, c # r, g')"
    then obtain g' where "st1 = (Some b, c # r, g')" ..
    from mem_lit_sep [OF 2 [unfolded this] s] s digit_not_sep [OF assms(2)] show False by auto
  qed
qed

lemma conv_ymd_groups:
  assumes "is_digit y1" "is_digit y2" "is_digit y3" "is_digit y4"
    and "is_digit m1" "is_digit m2" "is_digit d1" "is_digit d2"
  shows "conv_groups [(CHR ''Y'', [y1, y2, y3, y4]), (CHR ''m'', [m1, m2]), (CHR ''d'', [d1, d2])]
           tm_init =
         Some \<lparr>tm_year = Some (10 * (10 * (10 * digit_val y1 + digit_val y2) + digit_val y3)
                                + digit_val y4),
               tm_month = 10 * digit_val m1 + digit_val m2,
               tm_day = 10 * digit_val d1 + digit_val d2,
               tm_hour = 0, tm_minute = 0, tm_second = 0, tm_gmtoff = None\<rparr>"
  using assms by (simp add: conv_group_def py_int_two py_int_four tm_init_def)

lemma make_datetime_fields:
  "make_datetime t = Some dt \<Longrightarrow> tm_year t = Some y \<Longrightarrow>
   dt_year dt = y \<and> dt_month dt = tm_month t \<and> dt_day dt = tm_day t"
  by (auto simp: make_datetime_def Let_def split: if_splits)

lemma strptime_ymd_target:
  assumes dg: "is_digit y1" "is_digit y2" "is_digit y3" "is_digit y4" "is_digit m1" "is_digit m2"
    and dd: "is_digit d1" "is_digit d2"
    and c: "c = CHR ''-'' \<or> c = CHR ''/''"
    and pat: "pattern f = Some [rx_group (CHR ''Y'') re_Y, rx_lit_ci c,
                                rx_group (CHR ''m'') re_m, rx_lit_ci c,
                                rx_group (CHR ''d'') re_d]"
    and ok: "strptime [y1, y2, y3, y4, p, m1, m2, q, d1, d2] f = Some dt"
    and nz: "y1 \<noteq> CHR ''0''"
  shows "strftime_ymd dt = [y1, y2, y3, y4, CHR ''-'', m1, m2, CHR ''-'', d1, d2]"
proof -
  define R where "R = rx_seqs [rx_group (CHR ''Y'') re_Y, rx_lit_ci c,
                                rx_group (CHR ''m'') re_m, rx_lit_ci c,
                                rx_group (CHR ''d'') re_d]
                         (None, [y1, y2, y3, y4, p, m1, m2, q, d1, d2], [])"
  from ok have "(case R of [] \<Rightarrow> None
      | (p, rest, found_dict) # _ \<Rightarrow>
          if rest \<noteq> [] then None
          else (case conv_groups found_dict tm_init of None \<Rightarrow> None
                | Some t \<Rightarrow> make_datetime t)) = Some dt"
    unfolding strptime_def pat R_def by (simp only: option.case)
  then obtain p0 fd more t where R: "R = (p0, [], fd) # more"
    and conv: "conv_groups fd tm_init = Some t" and mk: "make_datetime t = Some dt"
    by (auto split: list.splits if_splits option.splits)
  have "(p0, [], fd) \<in> set R" unfolding R by simp
  from ymd_format_groups [OF dg c this [unfolded R_def]]
  have "fd = [(CHR ''Y'', [y1, y2, y3, y4]), (CHR ''m'', [m1, m2]), (CHR ''d'', [d1, d2])]"
    by simp
  with conv conv_ymd_groups [OF dg dd]
  have t: "t = \<lparr>tm_year = Some (10 * (10 * (10 * digit_val y1 + digit_val y2) + digit_val y3)
                                + digit_val y4),
               tm_month = 10 * digit_val m1 + digit_val m2,
               tm_day = 10 * digit_val d1 + digit_val d2,
               tm_hour = 0, tm_minute = 0, tm_second = 0, tm_gmtoff = None\<rparr>"
    by simp
  from make_datetime_fields [OF mk, of "10 * (10 * (10 * digit_val y1 + digit_val y2)
      + digit_val y3) + digit_val y4"] t
  have "dt_year dt = 10 * (10 * (10 * digit_val y1 + digit_val y2) + digit_val y3) + digit_val y4"
    and "dt_month dt = 10 * digit_val m1 + digit_val m2"
    and "dt_day dt = 10 * digit_val d1 + digit_val d2"
    by simp_all
  then have "strftime_ymd dt =
      dropWhile (\<lambda>c. c = CHR ''0'') [y1, y2, y3, y4] @ ''-'' @ [m1, m2] @ ''-'' @ [d1, d2]"
    by (simp only: strftime_ymd_def year_str_def pad4_digits [OF dg(1-4)]
        pad2_digits [OF dg(5,6)] pad2_digits [OF dd])
  with nz show ?thesis by simp
qed

lemma try_group_either:
  assumes "\<And>f dt. f \<in> set fmts \<Longrightarrow> strptime (strip s) f = Some dt \<Longrightarrow> strftime_ymd dt = r"
  shows "try_group s fmts = None \<or> try_group s fmts = Some r"
  using assms by (induction fmts) (auto split: option.splits)

lemma try_patterns_either:
  assumes "\<And>f dt. f \<in> set (concat groups) \<Longrightarrow> strptime (strip s) f = Some dt \<Longrightarrow>
             strftime_ymd dt = r"
  shows "try_patterns s groups = None \<or> try_patterns s groups = Some r"
  using assms
proof (induction groups)
  case Nil
  then show ?case by simp
next
  case (Cons fmts groups)
  have "try_group s fmts = None \<or> try_group s fmts = Some r"
  proof (rule try_group_either)
    fix f dt
    assume "f \<in> set fmts" and "strptime (strip s) f = Some dt"
    then show "strftime_ymd dt = r" using Cons.prems [of f dt] by simp
  qed
  moreover have "try_patterns s groups = None \<or> try_patterns s groups = Some r"
  proof (rule Cons.IH)
    fix f dt
    assume "f \<in> set (concat groups)" and "strptime (strip s) f = Some dt"
    then show "strftime_ymd dt = r" using Cons.prems [of f dt] by simp
  qed
  ultimately show ?case by (auto split: option.splits)
qed

lemma group_exact_digits:
  assumes "n \<le> length s" and "list_all is_digit (take n s)" and "0 < n"
  shows "rx_group k (rx_rep n n rx_digit) (p, s, g) =
         [(Some (s ! (n - 1)), drop n s, g @ [(k, take n s)])]"
  using assms by (simp add: rx_group_def rx_rep_exact_digits)

lemma sep_class:
  "x = CHR ''-'' \<or> x = CHR ''/'' \<Longrightarrow> rx_in ''/-'' (p, x # r, g) = [(Some x, r, g)]"
  by (auto simp: rx_in_def)

lemma ymd_search_on_canonical:
  assumes dg: "is_digit y1" "is_digit y2" "is_digit y3" "is_digit y4"
    and dm: "is_digit m1" "is_digit m2" and dd: "is_digit d1" "is_digit d2"
    and p: "p = CHR ''-'' \<or> p = CHR ''/''" and q: "q = CHR ''-'' \<or> q = CHR ''/''"
  shows "re_search ymd_re [y1, y2, y3, y4, p, m1, m2, q, d1, d2] =
         Some ([y1, y2, y3, y4, p, m1, m2, q, d1, d2],
               [(CHR ''1'', [y1, y2, y3, y4]), (CHR ''2'', [m1, m2]), (CHR ''3'', [d1, d2])])"
proof -
  have g1: "rx_group (CHR ''1'') (rx_rep 4 4 rx_digit)
              (None, [y1, y2, y3, y4, p, m1, m2, q, d1, d2], []) =
            [(Some y4, [p, m1, m2, q, d1, d2], [(CHR ''1'', [y1, y2, y3, y4])])]"
    using dg by (simp add: group_exact_digits)
  have g2: "rx_group (CHR ''2'') (rx_rep 2 2 rx_digit)
              (Some p, [m1, m2, q, d1, d2], [(CHR ''1'', [y1, y2, y3, y4])]) =
            [(Some m2, [q, d1, d2], [(CHR ''1'', [y1, y2, y3, y4]), (CHR ''2'', [m1, m2])])]"
    using dm by (simp add: group_exact_digits)
  have g3: "rx_group (CHR ''3'') (rx_rep 2 2 rx_digit)
              (Some q, [d1, d2], [(CHR ''1'', [y1, y2, y3, y4]), (CHR ''2'', [m1, m2])]) =
            [(Some d2, [], [(CHR ''1'', [y1, y2, y3, y4]), (CHR ''2'', [m1, m2]),
                            (CHR ''3'', [d1, d2])])]"
    using dd by (simp add: group_exact_digits)
  have "ymd_re (None, [y1, y2, y3, y4, p, m1, m2, q, d1, d2], []) =
        [(Some d2, [], [(CHR ''1'', [y1, y2, y3, y4]), (CHR ''2'', [m1, m2]),
                        (CHR ''3'', [d1, d2])])]"
    unfolding ymd_re_def
    by (simp only: rx_seqs.simps g1 g2 g3 sep_class [OF p] sep_class [OF q]
        list.map concat.simps append_Nil2 append_Nil)
  then show ?thesis
    by (simp add: re_search_def matched_def)
qed

lemma format_cases:
  assumes f: "f \<in> set (concat patterns)"
  shows "f = ''%Y-%m-%d'' \<or> f = ''%Y-%m-%dT%H:%M:%S%z''
      \<or> f = ''%Y-%m-%dT%H:%M:%S'' \<or> f = ''%b %d, %Y'' \<or> f = ''%B %d, %Y''
      \<or> f = ''%m/%d/%Y'' \<or> f = ''%d/%m/%Y'' \<or> f = ''%Y/%m/%d''
      \<or> f = ''%d-%b-%y'' \<or> f = ''%d-%B-%Y''"
  using f by (simp add: patterns_def)

lemma canonical_chars:
  assumes dg: "is_digit y1" "is_digit y2" "is_digit y3" "is_digit y4" "is_digit m1" "is_digit m2"
    and dd: "is_digit d1" "is_digit d2"
    and p: "p = CHR ''-'' \<or> p = CHR ''/''" and q: "q = CHR ''-'' \<or> q = CHR ''/''"
    and nz: "y1 \<noteq> CHR ''0''"
  shows "parse_date_to_iso (Some [y1, y2, y3, y4, p, m1, m2, q, d1, d2]) =
         Some [y1, y2, y3, y4, CHR ''-'', m1, m2, CHR ''-'', d1, d2]"
proof -
  let ?s = "[y1, y2, y3, y4, p, m1, m2, q, d1, d2]"
  let ?t = "[y1, y2, y3, y4, CHR ''-'', m1, m2, CHR ''-'', d1, d2]"
  have strip: "strip ?s = ?s"
    using dg(1) dd(2) by (simp add: strip_def digit_not_space)
  have each: "strftime_ymd dt = ?t"
    if f: "f \<in> set (concat patterns)" and ok: "strptime (strip ?s) f = Some dt" for f dt
  proof -
    from ok have ok': "strptime ?s f = Some dt" by (simp only: strip)
    from format_cases [OF f] show ?thesis
    proof (elim disjE)
      assume 1: "f = ''%Y-%m-%d''"
      have c: "CHR ''-'' = CHR ''-'' \<or> CHR ''-'' = CHR ''/''" by simp
      from strptime_ymd_target [OF dg dd c pattern_iso ok' [unfolded 1] nz] show ?thesis .
    next
      assume 2: "f = ''%Y-%m-%dT%H:%M:%S%z''"
      have "strptime ?s f = None"
        unfolding 2
        by (simp only: strptime_def pattern_iso_time_z option.case
            iso_time_format_fails [OF dg dd(2)] list.case)
      with ok' show ?thesis by simp
    next
      assume 3: "f = ''%Y-%m-%dT%H:%M:%S''"
      have "strptime ?s f = None"
        unfolding 3
        by (simp only: strptime_def pattern_iso_time option.case
            iso_time_format_fails [OF dg dd(2)] list.case)
      with ok' show ?thesis by simp
    next
      assume 4: "f = ''%b %d, %Y''"
      have "strptime ?s f = None"
        unfolding 4
        by (simp only: strptime_def pattern_b option.case
            a_month_group_fails [OF dg(1)] list.case)
      with ok' show ?thesis by simp
    next
      assume 5: "f = ''%B %d, %Y''"
      have "strptime ?s f = None"
        unfolding 5
        by (simp only: strptime_def pattern_B option.case
            f_month_group_fails [OF dg(1)] list.case)
      with ok' show ?thesis by simp
    next
      assume 6: "f = ''%m/%d/%Y''"
      have s: "CHR ''/'' = CHR ''-'' \<or> CHR ''/'' = CHR ''/''" by simp
      have "strptime ?s f = None"
        unfolding 6
        by (simp only: strptime_def pattern_us option.case
            month_first_fails_on_digits [OF dg(2) dg(3) s] list.case)
      with ok' show ?thesis by simp
    next
      assume 7: "f = ''%d/%m/%Y''"
      have s: "CHR ''/'' = CHR ''-'' \<or> CHR ''/'' = CHR ''/''" by simp
      have "strptime ?s f = None"
        unfolding 7
        by (simp only: strptime_def pattern_eu option.case
            day_first_fails_on_digits [OF dg(2) dg(3) s] list.case)
      with ok' show ?thesis by simp
    next
      assume 8: "f = ''%Y/%m/%d''"
      have c: "CHR ''/'' = CHR ''-'' \<or> CHR ''/'' = CHR ''/''" by simp
      from strptime_ymd_target [OF dg dd c pattern_ymd_slash ok' [unfolded 8] nz] show ?thesis .
    next
      assume 9: "f = ''%d-%b-%y''"
      have s: "CHR ''-'' = CHR ''-'' \<or> CHR ''-'' = CHR ''/''" by simp
      have "strptime ?s f = None"
        unfolding 9
        by (simp only: strptime_def pattern_dby option.case
            day_first_fails_on_digits [OF dg(2) dg(3) s] list.case)
      with ok' show ?thesis by simp
    next
      assume 10: "f = ''%d-%B-%Y''"
      have s: "CHR ''-'' = CHR ''-'' \<or> CHR ''-'' = CHR ''/''" by simp
      have "strptime ?s f = None"
        unfolding 10
        by (simp only: strptime_def pattern_dBY option.case
            day_first_fails_on_digits [OF dg(2) dg(3) s] list.case)
      with ok' show ?thesis by simp
    qed
  qed
  have tp: "try_patterns ?s patterns = None \<or> try_patterns ?s patterns = Some ?t"
    by (rule try_patterns_either) (rule each)
  have ymd: "re_search ymd_re ?s =
         Some (?s, [(CHR ''1'', [y1, y2, y3, y4]), (CHR ''2'', [m1, m2]), (CHR ''3'', [d1, d2])])"
    by (rule ymd_search_on_canonical [OF dg dd p q])
  from tp show ?thesis
  proof
    assume "try_patterns ?s patterns = None"
    then show ?thesis by (simp add: parse_date_to_iso_def ymd group_def)
  next
    assume "try_patterns ?s patterns = Some ?t"
    then show ?thesis by (simp add: parse_date_to_iso_def)
  qed
qed

text \<open>
  From the year 1000 on, a string of four digits, a separator, two digits, a separator and
  two digits, each separator a hyphen or a slash, normalizes to the same year, month and
  day joined by hyphens, whether or not they name a day of the calendar: either a
  year-first format parses the string and prints the same digits, or every format fails
  and the loose year-month-day search takes the digits as they stand.
\<close>

lemma year_from_1000_input_unchanged:
  assumes "length y = 4" and "length m = 2" and "length d = 2"
    and "list_all is_digit y" and "list_all is_digit m" and "list_all is_digit d"
    and "p = CHR ''-'' \<or> p = CHR ''/''" and "q = CHR ''-'' \<or> q = CHR ''/''"
    and "hd y \<noteq> CHR ''0''"
  shows "parse_date_to_iso (Some (y @ [p] @ m @ [q] @ d)) = Some (y @ ''-'' @ m @ ''-'' @ d)"
proof -
  from assms(1) obtain y1 y2 y3 y4 where y: "y = [y1, y2, y3, y4]"
    by (auto simp: numeral_eq_Suc length_Suc_conv)
  from assms(2) obtain m1 m2 where m: "m = [m1, m2]"
    by (auto simp: numeral_eq_Suc length_Suc_conv)
  from assms(3) obtain d1 d2 where d: "d = [d1, d2]"
    by (auto simp: numeral_eq_Suc length_Suc_conv)
  from assms(4-6) have dg: "is_digit y1" "is_digit y2" "is_digit y3" "is_digit y4"
    "is_digit m1" "is_digit m2" and dd: "is_digit d1" "is_digit d2"
    unfolding y m d by simp_all
  from assms(9) have nz: "y1 \<noteq> CHR ''0''"
    unfolding y by simp
  from canonical_chars [OF dg dd assms(7,8) nz] show ?thesis
    unfolding y m d by simp
qed

lemma year_from_1000_input_unchanged_examples:
  "parse_date_to_iso (Some ''2025-02-15'') = Some ''2025-02-15'' \<and>
   parse_date_to_iso (Some ''2025/13-45'') = Some ''2025-13-45''"
proof -
  have a: "parse_date_to_iso (Some (''2025'' @ [CHR ''-''] @ ''02'' @ [CHR ''-''] @ ''15'')) =
           Some (''2025'' @ ''-'' @ ''02'' @ ''-'' @ ''15'')"
    by (rule year_from_1000_input_unchanged) (simp_all add: is_digit_def)
  have b: "parse_date_to_iso (Some (''2025'' @ [CHR ''/''] @ ''13'' @ [CHR ''-''] @ ''45'')) =
           Some (''2025'' @ ''-'' @ ''13'' @ ''-'' @ ''45'')"
    by (rule year_from_1000_input_unchanged) (simp_all add: is_digit_def)
  from a b show ?thesis by simp
qed

text \<open>
  Claim C9 says that every string of four digits, a separator, two digits, a separator and
  two digits normalizes to the same year, month and day, and the docstring of
  \<open>parse_date_to_iso\<close> promises the form YYYY-mm-dd. For a day of the calendar in a year
  below 1000 the format \<open>%Y-%m-%d\<close> parses the string and \<open>strftime\<close> prints the year
  without its leading zeros: \<open>0999-12-25\<close> gives \<open>999-12-25\<close>. The loose search, which
  takes the strings that no format parses, keeps the four digits: \<open>0999-13-45\<close> stays as
  it is.
\<close>

theorem year_below_1000_loses_leading_zeros:
  "parse_date_to_iso (Some ''0999-12-25'') = Some ''999-12-25'' \<and>
   parse_date_to_iso (Some ''0999-13-45'') = Some ''0999-13-45''"
proof -
  have "parse_date_to_iso (Some ''0999-12-25'') = Some ''999-12-25''" by code_simp
  moreover have "parse_date_to_iso (Some ''0999-13-45'') = Some ''0999-13-45''" by code_simp
  ultimately show ?thesis by simp
qed

end
